theory Spec2Isabelle
  imports Complex_Main
begin

section \<open>Python exceptions\<close>

text \<open>
  Every exception the modelled code can raise is a value.  \<open>ConfigurationError\<close>,
  \<open>UnknownTaskError\<close> and \<open>ModelLoadError\<close> are the names of the specification's
  error taxonomy; no function of the source raises them.
\<close>

datatype py_error =
    StopIteration
  | UnboundLocalError
  | ZeroDivisionError
  | KeyError
  | AttributeError
  | IndexError
  | ValueError
  | RuntimeError
  | ConfigurationError
  | UnknownTaskError
  | ModelLoadError

text \<open>Python's \<^verbatim>\<open>a % b\<close> on integers: floored, and an exception when \<open>b = 0\<close>.\<close>

definition py_mod :: "int \<Rightarrow> int \<Rightarrow> py_error + int" where
  "py_mod a b = (if b = 0 then Inl ZeroDivisionError else Inr (a mod b))"

section \<open>\<^verbatim>\<open>InfiniteDataLoader\<close> (compat/method/adamerging/clip_task_wise_adamerging.py)\<close>

text \<open>
  A data loader is an iterable: every call of \<^verbatim>\<open>iter(data_loader)\<close> starts a new pass.
  \<open>epochs dl k\<close> is the finite list of batches the \<open>k\<close>-th iterator made over the loader
  yields (a shuffling loader yields another order on every pass), and \<open>iters_created\<close>
  counts the iterators made so far.
\<close>

record 'b DataLoader =
  epochs :: "nat \<Rightarrow> 'b list"
  iters_created :: nat

definition iter_loader :: "'b DataLoader \<Rightarrow> 'b list \<times> 'b DataLoader" where
  "iter_loader dl =
     (epochs dl (iters_created dl), dl\<lparr>iters_created := Suc (iters_created dl)\<rparr>)"

text \<open>A loader that yields the same batches in the same order on every pass.\<close>

definition sequential_loader :: "'b list \<Rightarrow> 'b DataLoader" where
  "sequential_loader xs = \<lparr>epochs = (\<lambda>k. xs), iters_created = 0\<rparr>"

text \<open>
  \<^verbatim>\<open>
  class InfiniteDataLoader:
      def __init__(self, data_loader):
          self.data_loader = data_loader
          self.data_iter = iter(data_loader)
      def __next__(self):
          try:
              data = next(self.data_iter)
          except StopIteration:
              self.data_iter = iter(self.data_loader)  # Reset the data loader
              data = next(self.data_iter)
          return data
  \<close>
  \<open>data_iter\<close> holds what the live iterator has still to yield.  The second
  \<^verbatim>\<open>next\<close> stands outside the \<^verbatim>\<open>try\<close>: its \<^verbatim>\<open>StopIteration\<close> reaches the caller.
\<close>

record 'b InfiniteDataLoader =
  data_loader :: "'b DataLoader"
  data_iter :: "'b list"

definition InfiniteDataLoader_init :: "'b DataLoader \<Rightarrow> 'b InfiniteDataLoader" where
  "InfiniteDataLoader_init dl =
     (case iter_loader dl of (it, dl') \<Rightarrow> \<lparr>data_loader = dl', data_iter = it\<rparr>)"

definition InfiniteDataLoader_next ::
    "'b InfiniteDataLoader \<Rightarrow> py_error + ('b \<times> 'b InfiniteDataLoader)" where
  "InfiniteDataLoader_next s =
     (case data_iter s of
        x # rest \<Rightarrow> Inr (x, s\<lparr>data_iter := rest\<rparr>)
      | [] \<Rightarrow>
         (case iter_loader (data_loader s) of (it, dl') \<Rightarrow>
            (case it of
               [] \<Rightarrow> Inl StopIteration
             | x # rest \<Rightarrow> Inr (x, \<lparr>data_loader = dl', data_iter = rest\<rparr>))))"

text \<open>\<open>n\<close> consecutive calls of \<^verbatim>\<open>next\<close> by a consumer; the first exception ends them.\<close>

fun next_n :: "nat \<Rightarrow> 'b InfiniteDataLoader \<Rightarrow> py_error + ('b list \<times> 'b InfiniteDataLoader)" where
  "next_n 0 s = Inr ([], s)"
| "next_n (Suc n) s =
     (case InfiniteDataLoader_next s of
        Inl e \<Rightarrow> Inl e
      | Inr (x, s') \<Rightarrow>
         (case next_n n s' of
            Inl e \<Rightarrow> Inl e
          | Inr (xs, s'') \<Rightarrow> Inr (x # xs, s'')))"

section \<open>The adaptation loop of \<^verbatim>\<open>DataAdaptiveWeightEnsemblingForCLIP.run\<close> (method/dawe/dawe_for_clip.py)\<close>

subsection \<open>Parameters, optimizer and the operations \<^verbatim>\<open>run\<close> calls\<close>

text \<open>
  \<^verbatim>\<open>model.parameters()\<close> is a list of parameter objects; the optimizer holds references
  to some of them, here their positions in that list.  A parameter carries its tensor,
  its \<^verbatim>\<open>requires_grad\<close> flag and its \<^verbatim>\<open>.grad\<close> (\<^verbatim>\<open>None\<close> until a backward pass fills it).
\<close>

record 't Parameter =
  data :: 't
  requires_grad :: bool
  grad :: "'t option"

record 's Optimizer =
  param_ids :: "nat list"
  opt_state :: 's
  steps_taken :: nat

text \<open>
  What \<^verbatim>\<open>run\<close> calls and the source files do not define: the mixin's
  \<^verbatim>\<open>compute_logits(model, images, task)\<close> (a function of the parameters' tensors, the
  images and the task's head), \<^verbatim>\<open>entropy_loss\<close>, the gradient autograd computes for the
  summed loss with respect to the parameter at a position, and Adam's update rule.
  They are parameters of the embedding.
\<close>

record ('t, 'x, 's) backend =
  compute_logits_fn :: "'t list \<Rightarrow> 'x \<Rightarrow> string \<Rightarrow> 't"
  entropy_loss_fn :: "'t \<Rightarrow> 't"
  gradient_fn :: "'t list \<Rightarrow> (string \<times> 'x) list \<Rightarrow> nat \<Rightarrow> 't"
  adam_update :: "'s \<Rightarrow> nat \<Rightarrow> 't \<Rightarrow> 't \<Rightarrow> 't"
  adam_advance :: "'s \<Rightarrow> 's"

text \<open>
  \<^verbatim>\<open>torch.optim.Adam([p for p in model.parameters() if p.requires_grad], lr=...)\<close>:
  exactly the positions whose parameter has \<^verbatim>\<open>requires_grad\<close> set.  torch refuses an
  empty parameter list with a \<^verbatim>\<open>ValueError\<close>.
\<close>

text \<open>\<^verbatim>\<open>tensor.requires_grad_(flag)\<close> sets the flag in place and returns the tensor.\<close>

definition set_requires_grad :: "bool \<Rightarrow> 't Parameter \<Rightarrow> 't Parameter" where
  "set_requires_grad flag p = p\<lparr>requires_grad := flag\<rparr>"

definition trainable_ids :: "'t Parameter list \<Rightarrow> nat list" where
  "trainable_ids ps = filter (\<lambda>i. requires_grad (ps ! i)) [0..<length ps]"

definition Adam :: "'s \<Rightarrow> 't Parameter list \<Rightarrow> py_error + 's Optimizer" where
  "Adam s0 ps =
     (if trainable_ids ps = [] then Inl ValueError
      else Inr \<lparr>param_ids = trainable_ids ps, opt_state = s0, steps_taken = 0\<rparr>)"

text \<open>Apply \<open>f\<close> to the parameters the optimizer holds, leaving every other one as it is.\<close>

definition on_params ::
    "nat list \<Rightarrow> (nat \<Rightarrow> 't Parameter \<Rightarrow> 't Parameter) \<Rightarrow> 't Parameter list \<Rightarrow> 't Parameter list" where
  "on_params ids f ps =
     map (\<lambda>(i, p). if i \<in> set ids then f i p else p) (zip [0..<length ps] ps)"

text \<open>\<^verbatim>\<open>optimizer.zero_grad()\<close>: the gradients of the optimizer's parameters are reset.\<close>

definition zero_grad :: "'s Optimizer \<Rightarrow> 't Parameter list \<Rightarrow> 't Parameter list" where
  "zero_grad opt ps = on_params (param_ids opt) (\<lambda>i p. p\<lparr>grad := None\<rparr>) ps"

text \<open>
  A backward pass accumulates a gradient into \<^verbatim>\<open>.grad\<close> of a tensor that requires
  one, and touches no tensor that does not.
\<close>

definition accumulate_grad :: "'t::plus \<Rightarrow> 't Parameter \<Rightarrow> 't Parameter" where
  "accumulate_grad g p =
     (if requires_grad p
      then p\<lparr>grad := Some (case grad p of None \<Rightarrow> g | Some g0 \<Rightarrow> g0 + g)\<rparr>
      else p)"

definition backward ::
    "('t::plus, 'x, 's) backend \<Rightarrow> (string \<times> 'x) list \<Rightarrow> 't Parameter list \<Rightarrow> 't Parameter list" where
  "backward be drawn ps =
     map (\<lambda>(i, p). accumulate_grad (gradient_fn be (map data ps) drawn i) p)
       (zip [0..<length ps] ps)"

text \<open>
  \<^verbatim>\<open>optimizer.step()\<close>: every parameter the optimizer holds and that has a gradient gets
  a new tensor; the optimizer's own state advances.
\<close>

definition optimizer_step ::
    "('t, 'x, 's) backend \<Rightarrow> 's Optimizer \<Rightarrow> 't Parameter list \<Rightarrow> 't Parameter list \<times> 's Optimizer" where
  "optimizer_step be opt ps =
     (on_params (param_ids opt)
        (\<lambda>i p. case grad p of
                  None \<Rightarrow> p
                | Some g \<Rightarrow> p\<lparr>data := adam_update be (opt_state opt) i (data p) g\<rparr>) ps,
      opt\<lparr>opt_state := adam_advance be (opt_state opt), steps_taken := Suc (steps_taken opt)\<rparr>)"

subsection \<open>The state of a run\<close>

text \<open>
  \<open>streams\<close> is \<^verbatim>\<open>self.shuffled_test_loader_iters\<close>; \<open>logged\<close> collects the calls of
  \<^verbatim>\<open>fabric.log_dict({"loss": losses.item()}, step=step_idx)\<close>; \<open>checkpoints\<close> collects the
  calls of \<^verbatim>\<open>fabric.save(log_dir/checkpoints/model_{step_idx}.pt, {"model": model})\<close> in
  the order they are made, each as the step index in the file name with the model's
  tensors at that moment; \<open>step_idx\<close> is the loop variable, \<open>None\<close> while it is unbound.
  \<open>visual_projection\<close> is the projection layer of the zero-shot head, which is no member
  of \<^verbatim>\<open>model.parameters()\<close>.
\<close>

record ('t, 'x, 'y, 's) run_state =
  model :: "'t Parameter list"
  optimizer :: "'s Optimizer"
  visual_projection :: "'t Parameter"
  streams :: "string \<rightharpoonup> ('x \<times> 'y) InfiniteDataLoader"
  logged :: "(int \<times> 't) list"
  checkpoints :: "(int \<times> 't list) list"
  step_idx :: "int option"

subsection \<open>The stream of a task\<close>

text \<open>
  Modelled from the spec: the class \<^verbatim>\<open>fusion_bench.utils.data.InfiniteDataLoader\<close>, in
  which \<^verbatim>\<open>load_datasets\<close> wraps every task's loader and on which \<^verbatim>\<open>run\<close> calls
  \<^verbatim>\<open>next\<close>, is not among the source files.  The specification's Infinite Data Stream
  (4.1) wraps a finite batch source; \<^verbatim>\<open>next\<close> returns the next batch and, when the source
  is exhausted, iterates it again from the beginning and returns the first batch of the
  new pass.  The class of the same name in the compat module does this, and its
  embedding is taken for the missing class.
\<close>

definition utils_InfiniteDataLoader :: "'b DataLoader \<Rightarrow> 'b InfiniteDataLoader" where
  "utils_InfiniteDataLoader dl = InfiniteDataLoader_init dl"

definition utils_next :: "'b InfiniteDataLoader \<Rightarrow> py_error + ('b \<times> 'b InfiniteDataLoader)" where
  "utils_next it = InfiniteDataLoader_next it"

subsection \<open>One iteration\<close>

text \<open>
  \<^verbatim>\<open>
  losses = 0
  for task_idx, task_name in enumerate(modelpool.model_names):
      images, _ = next(self.shuffled_test_loader_iters[task_name])
      logits = self.compute_logits(model, images=images, task=task_name)
      loss = entropy_loss(logits)
      losses += loss
  \<close>
  The loop returns the sum, the streams as the draws left them and the drawn images by
  task (the inputs of the graph the backward pass differentiates).
\<close>

fun task_loop ::
    "('t::plus, 'x, 's) backend \<Rightarrow> 't list \<Rightarrow> string list \<Rightarrow>
     (string \<rightharpoonup> ('x \<times> 'y) InfiniteDataLoader) \<Rightarrow> 't \<Rightarrow> (string \<times> 'x) list \<Rightarrow>
     py_error + ('t \<times> (string \<rightharpoonup> ('x \<times> 'y) InfiniteDataLoader) \<times> (string \<times> 'x) list)" where
  "task_loop be m [] strs losses drawn = Inr (losses, strs, drawn)"
| "task_loop be m (task_name # rest) strs losses drawn =
     (case strs task_name of
        None \<Rightarrow> Inl KeyError
      | Some it \<Rightarrow>
         (case utils_next it of
            Inl e \<Rightarrow> Inl e
          | Inr ((images, labels), it') \<Rightarrow>
             (let logits = compute_logits_fn be m images task_name;
                  loss = entropy_loss_fn be logits
              in task_loop be m rest (strs(task_name \<mapsto> it')) (losses + loss)
                   (drawn @ [(task_name, images)]))))"

text \<open>
  \<^verbatim>\<open>
  optimizer.zero_grad()
  self.fabric.backward(losses)
  optimizer.step()
  self.fabric.log_dict({"loss": losses.item()}, step=step_idx)
  \<close>
  With no task, \<^verbatim>\<open>losses\<close> is still the integer \<^verbatim>\<open>0\<close>, which has neither
  \<^verbatim>\<open>backward()\<close> nor \<^verbatim>\<open>item()\<close>: the iteration raises \<^verbatim>\<open>AttributeError\<close>.
\<close>

definition train_step ::
    "('t::{zero,plus}, 'x, 's) backend \<Rightarrow> string list \<Rightarrow> int \<Rightarrow>
     ('t, 'x, 'y, 's) run_state \<Rightarrow> py_error + ('t, 'x, 'y, 's) run_state" where
  "train_step be model_names i st =
     (case task_loop be (map data (model st)) model_names (streams st) 0 [] of
        Inl e \<Rightarrow> Inl e
      | Inr (losses, strs, drawn) \<Rightarrow>
         if model_names = [] then Inl AttributeError
         else
           (let m1 = zero_grad (optimizer st) (model st);
                m2 = backward be drawn m1;
                vp = accumulate_grad (gradient_fn be (map data m1) drawn (length m1))
                       (visual_projection st);
                (m3, opt) = optimizer_step be (optimizer st) m2
            in Inr (st\<lparr>model := m3, optimizer := opt, visual_projection := vp,
                        streams := strs, logged := logged st @ [(i, losses)]\<rparr>)))"

subsection \<open>Checkpoints and the whole run\<close>

definition save_checkpoint ::
    "int \<Rightarrow> ('t, 'x, 'y, 's) run_state \<Rightarrow> ('t, 'x, 'y, 's) run_state" where
  "save_checkpoint i st = st\<lparr>checkpoints := checkpoints st @ [(i, map data (model st))]\<rparr>"

text \<open>
  The body of \<^verbatim>\<open>for step_idx in tqdm(range(self.max_steps))\<close>: the iteration, then
  \<^verbatim>\<open>
  if (step_idx + 1) % self.save_interval == 0:
      self.fabric.save(... f"model_{step_idx}.pt", {"model": model})
  \<close>
\<close>

definition loop_body ::
    "('t::{zero,plus}, 'x, 's) backend \<Rightarrow> string list \<Rightarrow> int \<Rightarrow> int \<Rightarrow>
     ('t, 'x, 'y, 's) run_state \<Rightarrow> py_error + ('t, 'x, 'y, 's) run_state" where
  "loop_body be model_names save_interval i st =
     (case train_step be model_names i (st\<lparr>step_idx := Some i\<rparr>) of
        Inl e \<Rightarrow> Inl e
      | Inr st1 \<Rightarrow>
         (case py_mod (i + 1) save_interval of
            Inl e \<Rightarrow> Inl e
          | Inr r \<Rightarrow> Inr (if r = 0 then save_checkpoint i st1 else st1)))"

fun for_steps ::
    "('t::{zero,plus}, 'x, 's) backend \<Rightarrow> string list \<Rightarrow> int \<Rightarrow> int list \<Rightarrow>
     ('t, 'x, 'y, 's) run_state \<Rightarrow> py_error + ('t, 'x, 'y, 's) run_state" where
  "for_steps be model_names save_interval [] st = Inr st"
| "for_steps be model_names save_interval (i # rest) st =
     (case loop_body be model_names save_interval i st of
        Inl e \<Rightarrow> Inl e
      | Inr st' \<Rightarrow> for_steps be model_names save_interval rest st')"

text \<open>
  After the loop:
  \<^verbatim>\<open>
  if (step_idx + 1) % self.save_interval != 0:
      # if the last step was not saved, save it now
      self.fabric.save(... f"model_{step_idx}.pt", {"model": model})
  return model
  \<close>
  \<^verbatim>\<open>step_idx\<close> is the loop variable: when \<^verbatim>\<open>range(self.max_steps)\<close> is empty it was
  never bound and reading it raises \<^verbatim>\<open>UnboundLocalError\<close>.
\<close>

definition after_loop ::
    "int \<Rightarrow> ('t, 'x, 'y, 's) run_state \<Rightarrow> py_error + ('t, 'x, 'y, 's) run_state" where
  "after_loop save_interval st =
     (case step_idx st of
        None \<Rightarrow> Inl UnboundLocalError
      | Some i \<Rightarrow>
         (case py_mod (i + 1) save_interval of
            Inl e \<Rightarrow> Inl e
          | Inr r \<Rightarrow> Inr (if r \<noteq> 0 then save_checkpoint i st else st)))"

text \<open>
  \<^verbatim>\<open>load_datasets\<close> wraps the loader of every task of \<^verbatim>\<open>modelpool.model_names\<close> in an
  \<^verbatim>\<open>InfiniteDataLoader\<close>, keyed by the task's name.
\<close>

definition load_datasets ::
    "string list \<Rightarrow> (string \<Rightarrow> 'b DataLoader) \<Rightarrow> (string \<rightharpoonup> 'b InfiniteDataLoader)" where
  "load_datasets model_names loader_of =
     map_of (map (\<lambda>task_name. (task_name, utils_InfiniteDataLoader (loader_of task_name)))
               model_names)"

text \<open>
  \<^verbatim>\<open>run\<close>, from the loaded model (\<open>ps\<close>, what \<^verbatim>\<open>load_models\<close> returned) on: the streams,
  the optimizer over the parameters that require a gradient, the loop over
  \<^verbatim>\<open>range(max_steps)\<close>, the final save.  The zero-shot head's projection enters with
  \<^verbatim>\<open>requires_grad_(False)\<close> applied, as the head's setup leaves it.
\<close>

definition run ::
    "('t::{zero,plus}, 'x, 's) backend \<Rightarrow> string list \<Rightarrow> (string \<Rightarrow> ('x \<times> 'y) DataLoader) \<Rightarrow>
     's \<Rightarrow> 't Parameter list \<Rightarrow> 't Parameter \<Rightarrow> int \<Rightarrow> int \<Rightarrow>
     py_error + ('t, 'x, 'y, 's) run_state" where
  "run be model_names loader_of s0 ps proj max_steps save_interval =
     (case Adam s0 ps of
        Inl e \<Rightarrow> Inl e
      | Inr opt \<Rightarrow>
         (case for_steps be model_names save_interval [0..max_steps - 1]
                 \<lparr>model = ps, optimizer = opt,
                  visual_projection = set_requires_grad False proj,
                  streams = load_datasets model_names loader_of,
                  logged = [], checkpoints = [], step_idx = None\<rparr> of
            Inl e \<Rightarrow> Inl e
          | Inr st \<Rightarrow> after_loop save_interval st))"

section \<open>Resolving \<^verbatim>\<open>hidden_size\<close> in \<^verbatim>\<open>load_models\<close> (method/dawe/dawe_for_clip.py)\<close>

text \<open>
  \<^verbatim>\<open>
  dict_feature_extractor = instantiate(self._dict_feature_extractor)
  if self.hidden_size is None:
      # try to infer hidden size from feature extractor model
      self.hidden_size = dict_feature_extractor.config.hidden_sizes[-1]
  ...
  model = DataAdaptiveWeightEnsemblingCLIPVisionModel(..., hidden_size=self.hidden_size, ...)
  return model
  \<close>
  A feature extractor is an object that may or may not have a \<^verbatim>\<open>config\<close> attribute; a
  config may or may not have \<^verbatim>\<open>hidden_sizes\<close>, a list of integers.  Reading a missing
  attribute raises \<^verbatim>\<open>AttributeError\<close>; \<^verbatim>\<open>xs[-1]\<close> on an empty list raises
  \<^verbatim>\<open>IndexError\<close>.
\<close>

datatype extractor_config = ExtractorConfig (hidden_sizes: "int list option")

datatype feature_extractor = FeatureExtractor (config: "extractor_config option")

definition infer_hidden_size :: "feature_extractor \<Rightarrow> py_error + int" where
  "infer_hidden_size fe =
     (case config fe of
        None \<Rightarrow> Inl AttributeError
      | Some c \<Rightarrow>
         (case hidden_sizes c of
            None \<Rightarrow> Inl AttributeError
          | Some hs \<Rightarrow> if hs = [] then Inl IndexError else Inr (last hs)))"

text \<open>
  \<open>build_model\<close> stands for the model's constructor (the wrapper class is not among the
  source files); it receives the resolved hidden size.
\<close>

definition load_models ::
    "int option \<Rightarrow> feature_extractor \<Rightarrow> (int \<Rightarrow> py_error + 'm) \<Rightarrow> py_error + 'm" where
  "load_models hidden_size fe build_model =
     (case (case hidden_size of
              None \<Rightarrow> infer_hidden_size fe
            | Some h \<Rightarrow> Inr h) of
        Inl e \<Rightarrow> Inl e
      | Inr h \<Rightarrow> build_model h)"

section \<open>\<^verbatim>\<open>CLIPTaskWiseAdaMergingAlgorithm\<close> (compat/method/adamerging/clip_task_wise_adamerging.py)\<close>

subsection \<open>The cache file's path\<close>

text \<open>
  \<^verbatim>\<open>os.path.basename\<close> and \<^verbatim>\<open>os.path.join\<close> with two arguments, as \<^verbatim>\<open>posixpath\<close>
  defines them: the base name is what follows the last slash; a second component that
  starts with a slash replaces the first, and a separator is inserted unless the first
  is empty or ends with one.
\<close>

definition basename :: "string \<Rightarrow> string" where
  "basename path = rev (takeWhile (\<lambda>c. c \<noteq> CHR ''/'') (rev path))"

definition path_join :: "string \<Rightarrow> string \<Rightarrow> string" where
  "path_join a b =
     (if b \<noteq> [] \<and> hd b = CHR ''/'' then b
      else if a = [] \<or> last a = CHR ''/'' then a @ b
      else a @ ''/'' @ b)"

text \<open>
  \<^verbatim>\<open>os.path.dirname\<close>: what precedes the base name, without its trailing slashes unless
  it consists of slashes only.
\<close>

definition dirname :: "string \<Rightarrow> string" where
  "dirname path =
     (let head = take (length path - length (basename path)) path
      in if head \<noteq> [] \<and> \<not> list_all (\<lambda>c. c = CHR ''/'') head
         then rev (dropWhile (\<lambda>c. c = CHR ''/'') (rev head))
         else head)"

text \<open>
  \<^verbatim>\<open>
  cache_file = os.path.join(
      self.config.cache_dir,
      f"{os.path.basename(pretrained_path)}_{task}_zeroshot_weights.pt")
  \<close>
\<close>

definition cache_file :: "string \<Rightarrow> string \<Rightarrow> string \<Rightarrow> string" where
  "cache_file cache_dir pretrained_path task =
     path_join cache_dir (basename pretrained_path @ ''_'' @ task @ ''_zeroshot_weights.pt'')"

subsection \<open>The process: files, tensor objects, dictionaries\<close>

text \<open>
  Tensor objects and dictionary objects live in stores and are named by their address
  (the position in the store), so that two names for one object are two copies of one
  address.  \<open>files\<close> maps a path to the tensor saved there and \<open>directories\<close> holds the
  directories that exist; nothing in the class creates a directory.  \<open>trace\<close> records,
  in order,
  the calls that matter to the cache: \<^verbatim>\<open>os.path.exists\<close>, \<^verbatim>\<open>torch.load\<close>, the text
  encoder run by \<^verbatim>\<open>set_classification_task\<close> for a task, and \<^verbatim>\<open>torch.save\<close>.
\<close>

datatype io_event =
    PathExists string
  | TorchLoad string
  | EncodeText string
  | TorchSave string

record 'w process =
  files :: "string \<rightharpoonup> 'w"
  directories :: "string set"
  tensors :: "'w list"
  dicts :: "(string \<rightharpoonup> nat) list"
  trace :: "io_event list"

text \<open>
  \<^verbatim>\<open>torch.save(tensor, path)\<close> writes the file when the directory of the path exists (a
  path without a directory part lies in the working directory) and raises a
  \<^verbatim>\<open>RuntimeError\<close> (parent directory does not exist) otherwise.
\<close>

definition parent_exists :: "string \<Rightarrow> 'w process \<Rightarrow> bool" where
  "parent_exists path w \<longleftrightarrow> dirname path = [] \<or> dirname path \<in> directories w"

definition torch_save :: "'w \<Rightarrow> string \<Rightarrow> 'w process \<Rightarrow> py_error + 'w process" where
  "torch_save v path w =
     (if parent_exists path w
      then Inr (w\<lparr>files := (files w)(path \<mapsto> v), trace := trace w @ [TorchSave path]\<rparr>)
      else Inl RuntimeError)"

definition alloc_tensor :: "'w \<Rightarrow> 'w process \<Rightarrow> nat \<times> 'w process" where
  "alloc_tensor v w = (length (tensors w), w\<lparr>tensors := tensors w @ [v]\<rparr>)"

text \<open>\<^verbatim>\<open>d[key] = value\<close> on the dictionary at address \<open>d\<close>.\<close>

definition dict_store :: "nat \<Rightarrow> string \<Rightarrow> nat \<Rightarrow> 'w process \<Rightarrow> 'w process" where
  "dict_store d key a w = w\<lparr>dicts := (dicts w)[d := (dicts w ! d)(key \<mapsto> a)]\<rparr>"

text \<open>\<^verbatim>\<open>d[key]\<close>: \<^verbatim>\<open>KeyError\<close> when the key is missing.\<close>

definition dict_get :: "nat \<Rightarrow> string \<Rightarrow> 'w process \<Rightarrow> py_error + nat" where
  "dict_get d key w = (case (dicts w ! d) key of None \<Rightarrow> Inl KeyError | Some a \<Rightarrow> Inr a)"

subsection \<open>The class and its instances\<close>

text \<open>
  \<^verbatim>\<open>
  class CLIPTaskWiseAdaMergingAlgorithm(TaskWiseAdaMergingAlgorithm):
      modelpool: CLIPVisionModelPool = None
      _clip_processor: CLIPProcessor = None
      zeroshot_weights = {}

      def __init__(self, algorithm_config: DictConfig):
          super().__init__(algorithm_config)
  \<close>
  The class body runs once and makes one dictionary; the class object keeps its address.
  An instance has attributes of its own; \<^verbatim>\<open>__init__\<close> gives it none named
  \<^verbatim>\<open>zeroshot_weights\<close>.  Reading \<^verbatim>\<open>self.zeroshot_weights\<close> finds the instance's own
  attribute if it has one and the class's otherwise.
\<close>

record class_object =
  cls_zeroshot_weights :: nat

definition define_class :: "'w process \<Rightarrow> class_object \<times> 'w process" where
  "define_class w =
     (\<lparr>cls_zeroshot_weights = length (dicts w)\<rparr>, w\<lparr>dicts := dicts w @ [Map.empty]\<rparr>)"

record clip_model_config =
  config_pretrained_model_name_or_path :: "string option"
  config_path :: "string option"

record 'w algorithm =
  own_zeroshot_weights :: "nat option"
  config_cache_dir :: string
  modelpool_model_names :: "string list"
  modelpool_pretrained_config :: clip_model_config
  fabric_present :: bool
  self_visual_projection :: "'w Parameter option"
  self_logit_scale_exp :: "real option"

definition algorithm_init ::
    "string \<Rightarrow> string list \<Rightarrow> clip_model_config \<Rightarrow> bool \<Rightarrow> 'w algorithm" where
  "algorithm_init cache_dir names cfg with_fabric =
     \<lparr>own_zeroshot_weights = None, config_cache_dir = cache_dir,
      modelpool_model_names = names, modelpool_pretrained_config = cfg,
      fabric_present = with_fabric,
      self_visual_projection = None, self_logit_scale_exp = None\<rparr>"

definition zeroshot_weights_of :: "class_object \<Rightarrow> 'w algorithm \<Rightarrow> nat" where
  "zeroshot_weights_of cls self =
     (case own_zeroshot_weights self of Some d \<Rightarrow> d | None \<Rightarrow> cls_zeroshot_weights cls)"

subsection \<open>\<^verbatim>\<open>on_test_time_adaptation_start\<close>\<close>

text \<open>
  What the method calls and the source files do not define: loading the CLIP model of a
  path (its visual projection, its \<^verbatim>\<open>logit_scale\<close>, and the text encoder the classifier
  runs on a task's class names and templates), the registry
  \<^verbatim>\<open>get_classnames_and_templates\<close>, and the fabric's \<^verbatim>\<open>to_device\<close>.  A tensor that is
  on the device already is returned as it is, the same object (\<open>None\<close>); any other is
  copied to the device (\<open>Some\<close> of the copy).
\<close>

record ('w, 'ct) CLIPModel =
  clip_visual_projection :: "'w Parameter"
  clip_logit_scale :: real
  clip_encode_text :: "'ct \<Rightarrow> 'w"

record ('w, 'ct) clip_env =
  from_pretrained :: "string \<Rightarrow> py_error + ('w, 'ct) CLIPModel"
  get_classnames_and_templates :: "string \<Rightarrow> py_error + 'ct"
  to_device :: "'w \<Rightarrow> 'w option"

text \<open>
  \<^verbatim>\<open>
  pretrained_path = (
      clip_model_config.pretrained_model_name_or_path
      if hasattr(clip_model_config, "pretrained_model_name_or_path")
      else clip_model_config.path)
  \<close>
\<close>

definition pretrained_path_of :: "clip_model_config \<Rightarrow> py_error + string" where
  "pretrained_path_of cfg =
     (case config_pretrained_model_name_or_path cfg of
        Some path \<Rightarrow> Inr path
      | None \<Rightarrow> (case config_path cfg of Some path \<Rightarrow> Inr path | None \<Rightarrow> Inl AttributeError))"

text \<open>
  The head's tensor for one task:
  \<^verbatim>\<open>
  if os.path.exists(cache_file):
      zeroshot_weights = torch.load(cache_file, map_location="cpu")
  else:
      classnames, templates = get_classnames_and_templates(task)
      clip_classifier.set_classification_task(classnames, templates)
      zeroshot_weights = clip_classifier.zeroshot_weights
      torch.save(zeroshot_weights, cache_file)
  \<close>
  \<^verbatim>\<open>torch.load\<close> makes a new tensor object, and so does the classifier.
\<close>

definition load_or_compute ::
    "('w, 'ct) clip_env \<Rightarrow> ('w, 'ct) CLIPModel \<Rightarrow> string \<Rightarrow> string \<Rightarrow> 'w process \<Rightarrow>
     py_error + (nat \<times> 'w process)" where
  "load_or_compute env clip path task w =
     (let w0 = w\<lparr>trace := trace w @ [PathExists path]\<rparr> in
      case files w0 path of
        Some saved \<Rightarrow> Inr (alloc_tensor saved (w0\<lparr>trace := trace w0 @ [TorchLoad path]\<rparr>))
      | None \<Rightarrow>
         (case get_classnames_and_templates env task of
            Inl e \<Rightarrow> Inl e
          | Inr ct \<Rightarrow>
             (case alloc_tensor (clip_encode_text clip ct)
                     (w0\<lparr>trace := trace w0 @ [EncodeText task]\<rparr>) of
                (a, w1) \<Rightarrow>
                  (case torch_save (tensors w1 ! a) path w1 of
                     Inl e \<Rightarrow> Inl e
                   | Inr w2 \<Rightarrow> Inr (a, w2)))))"

text \<open>
  The body of \<^verbatim>\<open>for task in self.modelpool.model_names\<close>: the tensor from
  \<open>load_or_compute\<close>, then
  \<^verbatim>\<open>
  self.zeroshot_weights[task] = zeroshot_weights
  if self._fabric is not None:
      self.zeroshot_weights[task] = self._fabric.to_device(self.zeroshot_weights[task])
  \<close>
  When \<^verbatim>\<open>to_device\<close> returns the tensor itself, the same object is stored again; a
  copy is a new object.
\<close>

definition build_head ::
    "('w, 'ct) clip_env \<Rightarrow> ('w, 'ct) CLIPModel \<Rightarrow> class_object \<Rightarrow> 'w algorithm \<Rightarrow>
     string \<Rightarrow> string \<Rightarrow> 'w process \<Rightarrow> py_error + 'w process" where
  "build_head env clip cls self pretrained_path task w =
     (case load_or_compute env clip
             (cache_file (config_cache_dir self) pretrained_path task) task w of
        Inl e \<Rightarrow> Inl e
      | Inr (a, w1) \<Rightarrow>
         (let d = zeroshot_weights_of cls self;
              w2 = dict_store d task a w1
          in if fabric_present self
             then (case dict_get d task w2 of
                     Inl e \<Rightarrow> Inl e
                   | Inr b \<Rightarrow>
                      (case to_device env (tensors w2 ! b) of
                         None \<Rightarrow> Inr (dict_store d task b w2)
                       | Some moved \<Rightarrow>
                          (case alloc_tensor moved w2 of
                             (c, w3) \<Rightarrow> Inr (dict_store d task c w3))))
             else Inr w2))"

fun build_heads ::
    "('w, 'ct) clip_env \<Rightarrow> ('w, 'ct) CLIPModel \<Rightarrow> class_object \<Rightarrow> 'w algorithm \<Rightarrow>
     string \<Rightarrow> string list \<Rightarrow> 'w process \<Rightarrow> py_error + 'w process" where
  "build_heads env clip cls self pretrained_path [] w = Inr w"
| "build_heads env clip cls self pretrained_path (task # rest) w =
     (case build_head env clip cls self pretrained_path task w of
        Inl e \<Rightarrow> Inl e
      | Inr w' \<Rightarrow> build_heads env clip cls self pretrained_path rest w')"

text \<open>
  The whole method: the pretrained path, the CLIP model of that path,
  \<^verbatim>\<open>
  self.visual_projection = clip_model.visual_projection.requires_grad_(False)
  self.logit_scale_exp = clip_model.logit_scale.exp()
  \<close>
  and the loop over the tasks.  It returns the instance with its new attributes and the
  process.
\<close>

definition on_test_time_adaptation_start ::
    "('w, 'ct) clip_env \<Rightarrow> class_object \<Rightarrow> 'w algorithm \<Rightarrow> 'w process \<Rightarrow>
     py_error + ('w algorithm \<times> 'w process)" where
  "on_test_time_adaptation_start env cls self w =
     (case pretrained_path_of (modelpool_pretrained_config self) of
        Inl e \<Rightarrow> Inl e
      | Inr pretrained_path \<Rightarrow>
         (case from_pretrained env pretrained_path of
            Inl e \<Rightarrow> Inl e
          | Inr clip \<Rightarrow>
             (let self' = self\<lparr>self_visual_projection :=
                                  Some (set_requires_grad False (clip_visual_projection clip)),
                                self_logit_scale_exp := Some (exp (clip_logit_scale clip))\<rparr>
              in case build_heads env clip cls self' pretrained_path
                        (modelpool_model_names self') w of
                   Inl e \<Rightarrow> Inl e
                 | Inr w' \<Rightarrow> Inr (self', w'))))"

text \<open>The first statement of \<^verbatim>\<open>compute_logits\<close>: \<^verbatim>\<open>text_embeds = self.zeroshot_weights[task]\<close>.\<close>

definition head_lookup ::
    "class_object \<Rightarrow> 'w algorithm \<Rightarrow> 'w process \<Rightarrow> string \<Rightarrow> py_error + nat" where
  "head_lookup cls self w task = dict_get (zeroshot_weights_of cls self) task w"

subsection \<open>\<^verbatim>\<open>compute_logits\<close>\<close>

text \<open>
  Two-dimensional tensors carry their shape: the rows, and the number of columns (which
  the rows alone do not tell when there is no row).  The tensors the method receives hold
  real numbers; the arithmetic is that of the reals, not of floating point.  torch does
  not raise on a division by zero, it yields a value that is not a finite number; such a
  value is \<open>NonFinite\<close>, and every sum or product with it is \<open>NonFinite\<close> again.
\<close>

record 'a tensor2 =
  rows :: "'a list list"
  ncols :: nat

datatype scalar = Num real | NonFinite

definition well_shaped :: "'a tensor2 \<Rightarrow> bool" where
  "well_shaped m = list_all (\<lambda>r. length r = ncols m) (rows m)"

fun smul :: "scalar \<Rightarrow> scalar \<Rightarrow> scalar" where
  "smul (Num a) (Num b) = Num (a * b)"
| "smul a b = NonFinite"

fun sadd :: "scalar \<Rightarrow> scalar \<Rightarrow> scalar" where
  "sadd (Num a) (Num b) = Num (a + b)"
| "sadd a b = NonFinite"

definition sdiv :: "real \<Rightarrow> real \<Rightarrow> scalar" where
  "sdiv x n = (if n = 0 then NonFinite else Num (x / n))"

text \<open>\<^verbatim>\<open>m.t()\<close>\<close>

definition tensor_t :: "'a tensor2 \<Rightarrow> 'a tensor2" where
  "tensor_t m = \<lparr>rows = map (\<lambda>j. map (\<lambda>r. r ! j) (rows m)) [0..<ncols m],
                ncols = length (rows m)\<rparr>"

definition dot :: "real list \<Rightarrow> real list \<Rightarrow> real" where
  "dot xs ys = sum_list (map2 (*) xs ys)"

text \<open>
  The projection is a linear layer without bias: \<^verbatim>\<open>layer(x)\<close> is \<open>x\<close> times the transposed
  weight, and a \<^verbatim>\<open>RuntimeError\<close> when the feature dimensions differ.
\<close>

definition linear :: "real tensor2 \<Rightarrow> real tensor2 \<Rightarrow> py_error + real tensor2" where
  "linear weight x =
     (if ncols x \<noteq> ncols weight then Inl RuntimeError
      else Inr \<lparr>rows = map (\<lambda>r. map (\<lambda>wr. dot r wr) (rows weight)) (rows x),
                ncols = length (rows weight)\<rparr>)"

text \<open>
  \<^verbatim>\<open>x.norm(p=2, dim=-1, keepdim=True)\<close> of one row, and \<^verbatim>\<open>x / x.norm(...)\<close>.  The norm
  is the one of the reals: it is zero for the all-zero row only.  (The norm torch
  computes in floating point is also zero for a row whose squares underflow, and infinite
  for one whose squares overflow.)
\<close>

definition l2_norm :: "real list \<Rightarrow> real" where
  "l2_norm xs = sqrt (sum_list (map (\<lambda>x. x * x) xs))"

definition normalize_rows :: "real tensor2 \<Rightarrow> scalar tensor2" where
  "normalize_rows m =
     \<lparr>rows = map (\<lambda>r. map (\<lambda>x. sdiv x (l2_norm r)) r) (rows m), ncols = ncols m\<rparr>"

text \<open>\<^verbatim>\<open>torch.matmul(a, b)\<close>: a \<^verbatim>\<open>RuntimeError\<close> when the inner dimensions differ.\<close>

definition sdot :: "real list \<Rightarrow> scalar list \<Rightarrow> scalar" where
  "sdot xs ys = foldl sadd (Num 0) (map2 (\<lambda>x y. smul (Num x) y) xs ys)"

definition matmul :: "real tensor2 \<Rightarrow> scalar tensor2 \<Rightarrow> py_error + scalar tensor2" where
  "matmul a b =
     (if ncols a \<noteq> length (rows b) then Inl RuntimeError
      else Inr \<lparr>rows = map (\<lambda>r. map (\<lambda>j. sdot r (map (\<lambda>br. br ! j) (rows b))) [0..<ncols b])
                         (rows a),
                ncols = ncols b\<rparr>)"

definition scale_by :: "real \<Rightarrow> scalar tensor2 \<Rightarrow> scalar tensor2" where
  "scale_by c m = \<lparr>rows = map (map (smul (Num c))) (rows m), ncols = ncols m\<rparr>"

text \<open>
  \<^verbatim>\<open>
  def compute_logits(self, module, batch, task: str) -> Tensor:
      images, _ = batch
      text_embeds = self.zeroshot_weights[task]
      image_embeds = module(images)[1]
      image_embeds = self.visual_projection(image_embeds)
      # normalize embeddings
      image_embeds = image_embeds / image_embeds.norm(p=2, dim=-1, keepdim=True)
      # cosine similarity
      logits_per_text = (
          torch.matmul(text_embeds, image_embeds.t()) * self.logit_scale_exp
      )
      logits_per_image = logits_per_text.t()
      return logits_per_image
  \<close>
  \<open>module_fn\<close> gives the pooled features of the images (the second output of
  \<^verbatim>\<open>module\<close>).
  An attribute that \<^verbatim>\<open>on_test_time_adaptation_start\<close> has not set yet is an
  \<^verbatim>\<open>AttributeError\<close>.
\<close>

definition compute_logits ::
    "class_object \<Rightarrow> real tensor2 algorithm \<Rightarrow> real tensor2 process \<Rightarrow>
     ('x \<Rightarrow> real tensor2) \<Rightarrow> 'x \<times> 'y \<Rightarrow> string \<Rightarrow> py_error + scalar tensor2" where
  "compute_logits cls self w module_fn batch task =
     (case batch of (images, labels) \<Rightarrow>
      (case head_lookup cls self w task of
         Inl e \<Rightarrow> Inl e
       | Inr a \<Rightarrow>
          (let text_embeds = tensors w ! a;
               image_embeds = module_fn images
           in case self_visual_projection self of
                None \<Rightarrow> Inl AttributeError
              | Some layer \<Rightarrow>
                 (case linear (data layer) image_embeds of
                    Inl e \<Rightarrow> Inl e
                  | Inr projected \<Rightarrow>
                     (let normalized = normalize_rows projected
                      in case matmul text_embeds (tensor_t normalized) of
                           Inl e \<Rightarrow> Inl e
                         | Inr product \<Rightarrow>
                            (case self_logit_scale_exp self of
                               None \<Rightarrow> Inl AttributeError
                             | Some logit_scale_exp \<Rightarrow>
                                Inr (tensor_t (scale_by logit_scale_exp product))))))))"

subsection \<open>A small configuration to run the loop on\<close>

text \<open>
  Integers for tensors: the logits are the images, the loss is the logits, every
  gradient is 1 and the update subtracts the gradient.  Every task's loader yields the
  one batch \<open>(5, 0)\<close> on every pass.
\<close>

definition example_backend :: "(int, int, unit) backend" where
  "example_backend =
     \<lparr>compute_logits_fn = (\<lambda>m x t. x), entropy_loss_fn = (\<lambda>l. l),
      gradient_fn = (\<lambda>m d i. 1), adam_update = (\<lambda>s i v g. v - g),
      adam_advance = (\<lambda>s. s)\<rparr>"

definition example_loader_of :: "string \<Rightarrow> (int \<times> nat) DataLoader" where
  "example_loader_of task = sequential_loader [(5, 0)]"

text \<open>
  A state of the loop for the tasks \<open>names\<close>, every one with the loader \<open>dl\<close>: a frozen
  tensor, and a coefficient the optimizer holds.
\<close>

definition example_state ::
    "string list \<Rightarrow> (int \<times> nat) DataLoader \<Rightarrow> (int, int, nat, unit) run_state" where
  "example_state names dl =
     \<lparr>model = [\<lparr>data = 7, requires_grad = False, grad = None\<rparr>,
               \<lparr>data = 0, requires_grad = True, grad = None\<rparr>],
      optimizer = \<lparr>param_ids = [1], opt_state = (), steps_taken = 0\<rparr>,
      visual_projection = \<lparr>data = 1, requires_grad = False, grad = None\<rparr>,
      streams = load_datasets names (\<lambda>task. dl),
      logged = [], checkpoints = [], step_idx = Some 0\<rparr>"

text \<open>
  A CLIP model whose text encoder returns the length of what it is given, a registry
  that knows every task, tensors that are on the device already; an instance for the
  tasks \<^verbatim>\<open>dtd\<close> and \<^verbatim>\<open>svhn\<close> with the cache directory \<^verbatim>\<open>cache\<close> and no fabric; and a
  process with no file, the directories \<open>dirs\<close>, no tensor and the class's empty
  dictionary.
\<close>

definition example_clip :: "(int, string) CLIPModel" where
  "example_clip =
     \<lparr>clip_visual_projection = \<lparr>data = 1, requires_grad = True, grad = None\<rparr>,
      clip_logit_scale = 0,
      clip_encode_text = (\<lambda>ct. int (length ct))\<rparr>"

definition example_env :: "(int, string) clip_env" where
  "example_env =
     \<lparr>from_pretrained = (\<lambda>path. Inr example_clip),
      get_classnames_and_templates = (\<lambda>task. Inr (''a photo of '' @ task)),
      to_device = (\<lambda>v. None)\<rparr>"

definition example_class :: class_object where
  "example_class = \<lparr>cls_zeroshot_weights = 0\<rparr>"

definition example_algorithm :: "int algorithm" where
  "example_algorithm =
     algorithm_init ''cache'' [''dtd'', ''svhn'']
       \<lparr>config_pretrained_model_name_or_path = Some ''openai/clip'', config_path = None\<rparr> False"

definition example_process :: "string set \<Rightarrow> int process" where
  "example_process dirs =
     \<lparr>files = Map.empty, directories = dirs, tensors = [], dicts = [Map.empty], trace = []\<rparr>"



subsection \<open>Invariants of the loop\<close>

text \<open>
  Every named task has a stream, and every pass over that stream's loader yields at least
  one batch.
\<close>

abbreviation live_streams ::
    "string list \<Rightarrow> (string \<rightharpoonup> 'b InfiniteDataLoader) \<Rightarrow> bool" where
  "live_streams names strs \<equiv>
     \<forall>t\<in>set names. \<exists>it. strs t = Some it \<and> (\<forall>k. epochs (data_loader it) k \<noteq> [])"

text \<open>
  Against the parameters \<open>ps0\<close> a run starts from: the same number of parameters, the
  same \<^verbatim>\<open>requires_grad\<close> flags, and every parameter whose flag is off still the same
  object state (tensor, flag and gradient).
\<close>

abbreviation frozen_kept :: "'t Parameter list \<Rightarrow> 't Parameter list \<Rightarrow> bool" where
  "frozen_kept ps0 ps \<equiv>
     length ps = length ps0 \<and>
     (\<forall>i<length ps0. requires_grad (ps ! i) = requires_grad (ps0 ! i) \<and>
        (\<not> requires_grad (ps0 ! i) \<longrightarrow> ps ! i = ps0 ! i))"

subsection \<open>Reading a start of the adaptation\<close>

text \<open>
  The device step of the loop body as a function of the tensor; the calls one task adds
  to the trace, given the files before the task is handled; and what it means that the
  head of a task has been built between two states of the process: its tensor is the
  cache file's content if the file was there and the encoder's output otherwise, the file
  holds that tensor, and the dictionary maps the task to a tensor object made since, which
  holds the tensor as moved to the device.
\<close>

abbreviation head_device :: "('w, 'ct) clip_env \<Rightarrow> 'w algorithm \<Rightarrow> 'w \<Rightarrow> 'w" where
  "head_device env self \<equiv>
     (\<lambda>v. if fabric_present self
          then (case to_device env v of None \<Rightarrow> v | Some moved \<Rightarrow> moved)
          else v)"

abbreviation head_events :: "(string \<rightharpoonup> 'w) \<Rightarrow> string \<Rightarrow> string \<Rightarrow> io_event list" where
  "head_events fs path task \<equiv>
     PathExists path #
     (case fs path of Some saved \<Rightarrow> [TorchLoad path] | None \<Rightarrow> [EncodeText task, TorchSave path])"

abbreviation head_built ::
    "('w, 'ct) clip_env \<Rightarrow> ('w, 'ct) CLIPModel \<Rightarrow> class_object \<Rightarrow> 'w algorithm \<Rightarrow> string \<Rightarrow>
     'w process \<Rightarrow> 'w process \<Rightarrow> string \<Rightarrow> bool" where
  "head_built env clip cls self pretrained_path w w' task \<equiv>
     \<exists>v a.
       (case files w (cache_file (config_cache_dir self) pretrained_path task) of
          Some saved \<Rightarrow> v = saved
        | None \<Rightarrow> \<exists>ct. get_classnames_and_templates env task = Inr ct
                       \<and> v = clip_encode_text clip ct)
     \<and> files w' (cache_file (config_cache_dir self) pretrained_path task) = Some v
     \<and> dict_get (zeroshot_weights_of cls self) task w' = Inr a
     \<and> length (tensors w) \<le> a \<and> a < length (tensors w')
     \<and> tensors w' ! a = head_device env self v"

section \<open>Theorems\<close>

subsection \<open>The infinite data stream\<close>

lemma utils_next_eq [simp]: "utils_next = InfiniteDataLoader_next"
  by (rule ext) (simp add: utils_next_def)

lemma utils_InfiniteDataLoader_eq [simp]: "utils_InfiniteDataLoader = InfiniteDataLoader_init"
  by (rule ext) (simp add: utils_InfiniteDataLoader_def)

lemma InfiniteDataLoader_next_live:
  "data_iter s = x # rest \<Longrightarrow> InfiniteDataLoader_next s = Inr (x, s\<lparr>data_iter := rest\<rparr>)"
  by (simp add: InfiniteDataLoader_next_def)

lemma InfiniteDataLoader_next_reset:
  "data_iter s = [] \<Longrightarrow> epochs (data_loader s) (iters_created (data_loader s)) = x # rest \<Longrightarrow>
   InfiniteDataLoader_next s =
     Inr (x, \<lparr>data_loader = (data_loader s)\<lparr>iters_created := Suc (iters_created (data_loader s))\<rparr>,
              data_iter = rest\<rparr>)"
  by (simp add: InfiniteDataLoader_next_def iter_loader_def)

lemma InfiniteDataLoader_next_empty:
  "data_iter s = [] \<Longrightarrow> epochs (data_loader s) (iters_created (data_loader s)) = [] \<Longrightarrow>
   InfiniteDataLoader_next s = Inl StopIteration"
  by (simp add: InfiniteDataLoader_next_def iter_loader_def)

lemma InfiniteDataLoader_next_total:
  assumes "\<forall>k. epochs (data_loader s) k \<noteq> []"
  shows "\<exists>x s'. InfiniteDataLoader_next s = Inr (x, s') \<and>
                epochs (data_loader s') = epochs (data_loader s)"
proof (cases "data_iter s")
  case Nil
  obtain x rest where "epochs (data_loader s) (iters_created (data_loader s)) = x # rest"
    using assms by (meson list.exhaust)
  with Nil show ?thesis by (simp add: InfiniteDataLoader_next_reset)
next
  case (Cons x rest)
  then show ?thesis by (simp add: InfiniteDataLoader_next_live)
qed

lemma map_upt_shift: "map f [a + L..<b + L] = map (\<lambda>j. f (j + L)) [a..<b]"
  by (induction b) (auto simp: not_less less_Suc_eq_le Suc_diff_le)

lemma next_n_cycle:
  assumes "\<forall>k. length (epochs (data_loader s) k) = L" and "0 < L"
    and "iters_created (data_loader s) = Suc p"
    and "data_iter s = drop off (epochs (data_loader s) p)" and "off \<le> L"
  shows "\<exists>s'. next_n n s =
           Inr (map (\<lambda>i. epochs (data_loader s) (p + i div L) ! (i mod L)) [off..<off + n], s')"
  using assms
proof (induction n arbitrary: s p off)
  case 0
  then show ?case by simp
next
  case (Suc n)
  let ?E = "epochs (data_loader s)"
  show ?case
  proof (cases "off < L")
    case True
    then have d: "data_iter s = ?E p ! off # drop (Suc off) (?E p)"
      using Suc.prems by (simp add: Cons_nth_drop_Suc)
    let ?s1 = "s\<lparr>data_iter := drop (Suc off) (?E p)\<rparr>"
    have n1: "InfiniteDataLoader_next s = Inr (?E p ! off, ?s1)"
      using d by (simp add: InfiniteDataLoader_next_live)
    have "\<exists>s'. next_n n ?s1 =
           Inr (map (\<lambda>i. epochs (data_loader ?s1) (p + i div L) ! (i mod L)) [Suc off..<Suc off + n], s')"
      by (rule Suc.IH) (use Suc.prems True in auto)
    then obtain s' where
      "next_n n ?s1 = Inr (map (\<lambda>i. ?E (p + i div L) ! (i mod L)) [Suc off..<Suc off + n], s')"
      by auto
    moreover have "[off..<off + Suc n] = off # [Suc off..<Suc off + n]"
      by (simp add: upt_conv_Cons del: upt_Suc)
    ultimately show ?thesis using n1 True
      by (simp del: upt_Suc)
  next
    case False
    then have off: "off = L" using Suc.prems by simp
    then have d: "data_iter s = []" using Suc.prems by simp
    have len: "length (?E (Suc p)) = L" using Suc.prems by simp
    then have e: "?E (Suc p) = ?E (Suc p) ! 0 # drop 1 (?E (Suc p))"
      using \<open>0 < L\<close> by (metis Cons_nth_drop_Suc One_nat_def drop0)
    let ?s1 = "\<lparr>data_loader = (data_loader s)\<lparr>iters_created := Suc (Suc p)\<rparr>,
                data_iter = drop 1 (?E (Suc p))\<rparr>"
    have n1: "InfiniteDataLoader_next s = Inr (?E (Suc p) ! 0, ?s1)"
      using InfiniteDataLoader_next_reset[OF d, of "?E (Suc p) ! 0" "drop 1 (?E (Suc p))"] e Suc.prems(3)
      by simp
    have "\<exists>s'. next_n n ?s1 =
           Inr (map (\<lambda>i. epochs (data_loader ?s1) (Suc p + i div L) ! (i mod L)) [1..<1 + n], s')"
      by (rule Suc.IH) (use Suc.prems in auto)
    then obtain s' where s': 
      "next_n n ?s1 = Inr (map (\<lambda>i. ?E (Suc p + i div L) ! (i mod L)) [1..<1 + n], s')"
      by auto
    have "map (\<lambda>i. ?E (p + i div L) ! (i mod L)) [1 + L..<(1 + n) + L]
        = map (\<lambda>j. ?E (p + (j + L) div L) ! ((j + L) mod L)) [1..<1 + n]"
      by (rule map_upt_shift)
    also have "\<dots> = map (\<lambda>i. ?E (Suc p + i div L) ! (i mod L)) [1..<1 + n]"
      using \<open>0 < L\<close> by simp
    finally have sh: "map (\<lambda>i. ?E (p + i div L) ! (i mod L)) [Suc L..<Suc (L + n)]
        = map (\<lambda>i. ?E (Suc p + i div L) ! (i mod L)) [1..<1 + n]"
      by (simp add: add.commute del: upt_Suc)
    have "[off..<off + Suc n] = L # [Suc L..<Suc (L + n)]"
      using off by (simp add: upt_conv_Cons del: upt_Suc)
    with n1 s' sh show ?thesis using \<open>0 < L\<close>
      by (simp del: upt_Suc)
  qed
qed

text \<open>
  Claim C2, as amended.  For a source every pass of which yields \<open>L \<ge> 1\<close> batches, any
  number \<open>n\<close> of consecutive calls of \<^verbatim>\<open>next\<close> on the stream wrapping it returns \<open>n\<close>
  batches and raises nothing: call \<open>i\<close> (from 0) returns batch \<open>i mod L\<close> of pass
  \<open>i div L\<close>, so a call on an exhausted iterator returns the first batch of a fresh pass
  over the same loader.  (A source with no batch is excluded: see the counterexample.)
\<close>

theorem InfiniteDataLoader_cycles:
  assumes "\<forall>k. length (epochs dl k) = L" and "0 < L"
  shows "\<exists>s'. next_n n (InfiniteDataLoader_init dl) =
           Inr (map (\<lambda>i. epochs dl (iters_created dl + i div L) ! (i mod L)) [0..<n], s')"
  using next_n_cycle[of "InfiniteDataLoader_init dl" L "iters_created dl" 0 n] assms
  by (simp add: InfiniteDataLoader_init_def iter_loader_def)

text \<open>Seven calls on a source of three batches.\<close>

theorem InfiniteDataLoader_cycles_witness:
  "\<exists>s'. next_n 7 (InfiniteDataLoader_init (sequential_loader [10, 20, 30 :: int])) =
     Inr ([10, 20, 30, 10, 20, 30, 10], s')"
  using InfiniteDataLoader_cycles[of "sequential_loader [10, 20, 30 :: int]" 3 7]
  by (simp add: sequential_loader_def upt_conv_Cons)

text \<open>
  Claim C2 as stated covers any finite source.  On a source of length 0 the very first
  call of \<^verbatim>\<open>next\<close> raises \<^verbatim>\<open>StopIteration\<close>: the reset in the handler yields an
  iterator that is exhausted at once, and the second \<^verbatim>\<open>next\<close> is not guarded.
\<close>

theorem InfiniteDataLoader_empty_source:
  "InfiniteDataLoader_next (InfiniteDataLoader_init (sequential_loader ([] :: int list))) =
     Inl StopIteration"
  by (simp add: InfiniteDataLoader_next_def InfiniteDataLoader_init_def iter_loader_def
      sequential_loader_def)

subsection \<open>One iteration of the adaptation loop\<close>

lemma InfiniteDataLoader_next_epochs:
  "InfiniteDataLoader_next s = Inr (b, s') \<Longrightarrow> epochs (data_loader s') = epochs (data_loader s)"
  by (auto simp: InfiniteDataLoader_next_def iter_loader_def split: list.splits)

lemma InfiniteDataLoader_init_epochs:
  "epochs (data_loader (InfiniteDataLoader_init dl)) = epochs dl"
  by (simp add: InfiniteDataLoader_init_def iter_loader_def)

lemma on_params_length [simp]: "length (on_params ids f ps) = length ps"
  by (simp add: on_params_def)

lemma on_params_nth:
  "i < length ps \<Longrightarrow> on_params ids f ps ! i = (if i \<in> set ids then f i (ps ! i) else ps ! i)"
  by (simp add: on_params_def)

lemma backward_length [simp]: "length (backward be drawn ps) = length ps"
  by (simp add: backward_def)

lemma zero_grad_length [simp]: "length (zero_grad opt ps) = length ps"
  by (simp add: zero_grad_def)

lemma backward_nth:
  "i < length ps \<Longrightarrow>
   backward be drawn ps ! i = accumulate_grad (gradient_fn be (map data ps) drawn i) (ps ! i)"
  by (simp add: backward_def)

lemma zero_grad_data: "map data (zero_grad opt ps) = map data ps"
  by (rule nth_equalityI) (simp_all add: zero_grad_def on_params_nth)

text \<open>
  The three optimizer calls of an iteration, parameter by parameter.  A parameter the
  optimizer holds ends with the gradient of this iteration alone, whatever gradient it
  had before, and with the tensor Adam computes from that gradient; a parameter the
  optimizer does not hold keeps its tensor, and the backward pass adds to the gradient it
  had.
\<close>

lemma zero_grad_backward_step_nth:
  assumes "j < length ps"
  shows "fst (optimizer_step be opt (backward be drawn (zero_grad opt ps))) ! j =
     (if j \<in> set (param_ids opt)
      then (if requires_grad (ps ! j)
            then (ps ! j)\<lparr>data := adam_update be (opt_state opt) j (data (ps ! j))
                                   (gradient_fn be (map data ps) drawn j),
                          grad := Some (gradient_fn be (map data ps) drawn j)\<rparr>
            else (ps ! j)\<lparr>grad := None\<rparr>)
      else (if requires_grad (ps ! j)
            then (ps ! j)\<lparr>grad := Some (case grad (ps ! j) of
                                           None \<Rightarrow> gradient_fn be (map data ps) drawn j
                                         | Some g0 \<Rightarrow> g0 + gradient_fn be (map data ps) drawn j)\<rparr>
            else ps ! j))"
proof -
  have z: "zero_grad opt ps ! j =
      (if j \<in> set (param_ids opt) then (ps ! j)\<lparr>grad := None\<rparr> else ps ! j)"
    using assms by (simp add: zero_grad_def on_params_nth)
  have b: "backward be drawn (zero_grad opt ps) ! j =
      accumulate_grad (gradient_fn be (map data ps) drawn j) (zero_grad opt ps ! j)"
    using assms by (simp add: backward_nth zero_grad_data)
  have "fst (optimizer_step be opt (backward be drawn (zero_grad opt ps))) ! j =
      (if j \<in> set (param_ids opt)
       then (case grad (backward be drawn (zero_grad opt ps) ! j) of
               None \<Rightarrow> backward be drawn (zero_grad opt ps) ! j
             | Some g \<Rightarrow> (backward be drawn (zero_grad opt ps) ! j)
                 \<lparr>data := adam_update be (opt_state opt) j
                            (data (backward be drawn (zero_grad opt ps) ! j)) g\<rparr>)
       else backward be drawn (zero_grad opt ps) ! j)"
    using assms by (simp add: optimizer_step_def on_params_nth)
  then show ?thesis
    unfolding b z by (simp add: accumulate_grad_def)
qed

lemma task_loop_draws:
  assumes "live_streams names strs"
  shows "\<exists>losses strs' new ss.
           task_loop be m names strs l d = Inr (losses, strs', d @ new)
         \<and> length new = length names \<and> length ss = Suc (length names)
         \<and> ss ! 0 = strs \<and> ss ! length names = strs'
         \<and> (\<forall>k<length names. \<exists>it x y it'.
               (ss ! k) (names ! k) = Some it
             \<and> InfiniteDataLoader_next it = Inr ((x, y), it')
             \<and> new ! k = (names ! k, x)
             \<and> ss ! Suc k = (ss ! k)(names ! k \<mapsto> it'))
         \<and> losses = foldl (+) l
              (map (\<lambda>(t, x). entropy_loss_fn be (compute_logits_fn be m x t)) new)"
  using assms
proof (induction names arbitrary: strs l d)
  case Nil
  show ?case
    by (intro exI[of _ l] exI[of _ strs] exI[of _ "[]"] exI[of _ "[strs]"]) simp
next
  case (Cons t rest)
  from Cons.prems obtain it where it: "strs t = Some it" "\<forall>k. epochs (data_loader it) k \<noteq> []"
    by auto
  from InfiniteDataLoader_next_total[OF it(2)] obtain x y it'
    where nx: "InfiniteDataLoader_next it = Inr ((x, y), it')"
      and ep: "epochs (data_loader it') = epochs (data_loader it)"
    by (metis surj_pair)
  let ?strs1 = "strs(t \<mapsto> it')"
  let ?loss = "entropy_loss_fn be (compute_logits_fn be m x t)"
  have "live_streams rest strs" using Cons.prems by simp
  then have live1: "live_streams rest ?strs1" using it ep by auto
  from Cons.IH[OF live1, of "l + ?loss" "d @ [(t, x)]"]
  obtain losses strs' new ss where ih:
    "task_loop be m rest ?strs1 (l + ?loss) (d @ [(t, x)]) = Inr (losses, strs', (d @ [(t, x)]) @ new)"
    "length new = length rest" "length ss = Suc (length rest)"
    "ss ! 0 = ?strs1" "ss ! length rest = strs'"
    "\<forall>k<length rest. \<exists>it1 x1 y1 it1'.
               (ss ! k) (rest ! k) = Some it1
             \<and> InfiniteDataLoader_next it1 = Inr ((x1, y1), it1')
             \<and> new ! k = (rest ! k, x1)
             \<and> ss ! Suc k = (ss ! k)(rest ! k \<mapsto> it1')"
    "losses = foldl (+) (l + ?loss)
        (map (\<lambda>(t, x). entropy_loss_fn be (compute_logits_fn be m x t)) new)"
    by blast
  let ?new = "(t, x) # new"
  let ?ss = "strs # ss"
  have run: "task_loop be m (t # rest) strs l d = Inr (losses, strs', d @ ?new)"
    using it nx ih(1) by (simp add: Let_def)
  have draws: "\<forall>k<length (t # rest). \<exists>it1 x1 y1 it1'.
               (?ss ! k) ((t # rest) ! k) = Some it1
             \<and> InfiniteDataLoader_next it1 = Inr ((x1, y1), it1')
             \<and> ?new ! k = ((t # rest) ! k, x1)
             \<and> ?ss ! Suc k = (?ss ! k)((t # rest) ! k \<mapsto> it1')"
  proof (intro allI impI)
    fix k assume k: "k < length (t # rest)"
    show "\<exists>it1 x1 y1 it1'.
               (?ss ! k) ((t # rest) ! k) = Some it1
             \<and> InfiniteDataLoader_next it1 = Inr ((x1, y1), it1')
             \<and> ?new ! k = ((t # rest) ! k, x1)
             \<and> ?ss ! Suc k = (?ss ! k)((t # rest) ! k \<mapsto> it1')"
    proof (cases k)
      case 0
      then show ?thesis using it(1) nx ih(4) by simp
    next
      case (Suc k')
      then have "k' < length rest" using k by simp
      with ih(6) Suc show ?thesis by simp
    qed
  qed
  show ?case
  proof (rule exI[of _ losses], rule exI[of _ strs'], rule exI[of _ ?new], rule exI[of _ ?ss],
      intro conjI)
    show "task_loop be m (t # rest) strs l d = Inr (losses, strs', d @ ?new)" by (rule run)
    show "length ?new = length (t # rest)" using ih(2) by simp
    show "length ?ss = Suc (length (t # rest))" using ih(3) by simp
    show "?ss ! 0 = strs" by simp
    show "?ss ! length (t # rest) = strs'" using ih(5) by simp
    show "\<forall>k<length (t # rest). \<exists>it1 x1 y1 it1'.
               (?ss ! k) ((t # rest) ! k) = Some it1
             \<and> InfiniteDataLoader_next it1 = Inr ((x1, y1), it1')
             \<and> ?new ! k = ((t # rest) ! k, x1)
             \<and> ?ss ! Suc k = (?ss ! k)((t # rest) ! k \<mapsto> it1')" by (rule draws)
    show "losses = foldl (+) l
              (map (\<lambda>(t, x). entropy_loss_fn be (compute_logits_fn be m x t)) ?new)"
      using ih(7) by simp
  qed
qed

text \<open>
  Claim C3, as amended.  One iteration of the adaptation loop over a non-empty task list,
  when every pass over every task's loader yields a batch, completes and does exactly
  this.  At position \<open>k\<close> of \<^verbatim>\<open>model_names\<close>, in that order, it calls \<^verbatim>\<open>next\<close> once on the
  stream of task \<open>model_names ! k\<close> as the earlier draws left it (\<open>ss ! k\<close>; \<open>ss ! 0\<close> are the
  streams before the iteration and the last of \<open>ss\<close> the streams after it), which returns
  the images \<open>x\<close> that \<open>drawn\<close> lists for the task at that position.  The logged entry is
  the step index with the sum, from 0 and in task order, of the entropy losses of the
  logits of those images for those tasks, computed by the model as it was before the
  iteration.  Every parameter that the optimizer holds and that requires a gradient ends
  with the gradient \<open>g\<close> of that sum and nothing else, whatever gradient it had before
  (the gradients are zeroed, then the sum is backpropagated), and with the tensor one
  Adam update computes from \<open>g\<close>; a parameter outside the optimizer keeps its tensor.  The
  optimizer has taken exactly one step.  No checkpoint is written by this part of the
  iteration.  (Iterations over an empty task list or over an empty loader raise: see the
  counterexample.)
\<close>

theorem train_step_effects:
  assumes "model_names \<noteq> []"
    and "live_streams model_names (streams st)"
  shows "\<exists>st' drawn ss.
           train_step be model_names i st = Inr st'
         \<and> length drawn = length model_names \<and> length ss = Suc (length model_names)
         \<and> ss ! 0 = streams st \<and> ss ! length model_names = streams st'
         \<and> (\<forall>k<length model_names. \<exists>it x y it'.
               (ss ! k) (model_names ! k) = Some it
             \<and> utils_next it = Inr ((x, y), it')
             \<and> drawn ! k = (model_names ! k, x)
             \<and> ss ! Suc k = (ss ! k)(model_names ! k \<mapsto> it'))
         \<and> logged st' = logged st @
              [(i, foldl (+) 0 (map (\<lambda>(t, x). entropy_loss_fn be
                      (compute_logits_fn be (map data (model st)) x t)) drawn))]
         \<and> length (model st') = length (model st)
         \<and> (\<forall>j<length (model st).
              model st' ! j =
                (let p = model st ! j; g = gradient_fn be (map data (model st)) drawn j
                 in if j \<in> set (param_ids (optimizer st))
                    then (if requires_grad p
                          then p\<lparr>data := adam_update be (opt_state (optimizer st)) j (data p) g,
                                 grad := Some g\<rparr>
                          else p\<lparr>grad := None\<rparr>)
                    else (if requires_grad p
                          then p\<lparr>grad := Some (case grad p of None \<Rightarrow> g | Some g0 \<Rightarrow> g0 + g)\<rparr>
                          else p)))
         \<and> optimizer st' =
              (optimizer st)\<lparr>opt_state := adam_advance be (opt_state (optimizer st)),
                              steps_taken := Suc (steps_taken (optimizer st))\<rparr>
         \<and> checkpoints st' = checkpoints st \<and> step_idx st' = step_idx st"
proof -
  from task_loop_draws[OF assms(2), of be "map data (model st)" 0 "[]"]
  obtain losses strs' new ss where tl:
    "task_loop be (map data (model st)) model_names (streams st) 0 [] = Inr (losses, strs', new)"
    "length new = length model_names" "length ss = Suc (length model_names)"
    "ss ! 0 = streams st" "ss ! length model_names = strs'"
    "\<forall>k<length model_names. \<exists>it x y it'.
               (ss ! k) (model_names ! k) = Some it
             \<and> InfiniteDataLoader_next it = Inr ((x, y), it')
             \<and> new ! k = (model_names ! k, x)
             \<and> ss ! Suc k = (ss ! k)(model_names ! k \<mapsto> it')"
    "losses = foldl (+) 0
        (map (\<lambda>(t, x). entropy_loss_fn be (compute_logits_fn be (map data (model st)) x t)) new)"
    by auto
  let ?res = "optimizer_step be (optimizer st) (backward be new (zero_grad (optimizer st) (model st)))"
  obtain st' where st': "train_step be model_names i st = Inr st'"
      "streams st' = strs'" "logged st' = logged st @ [(i, losses)]"
      "model st' = fst ?res" "optimizer st' = snd ?res"
      "checkpoints st' = checkpoints st" "step_idx st' = step_idx st"
    using tl(1) assms(1) by (simp add: train_step_def Let_def split_beta)
  have len: "length (model st') = length (model st)"
    using st'(4) by (simp add: optimizer_step_def)
  have opt: "optimizer st' =
              (optimizer st)\<lparr>opt_state := adam_advance be (opt_state (optimizer st)),
                              steps_taken := Suc (steps_taken (optimizer st))\<rparr>"
    using st'(5) by (simp add: optimizer_step_def)
  have params: "\<forall>j<length (model st).
              model st' ! j =
                (let p = model st ! j; g = gradient_fn be (map data (model st)) new j
                 in if j \<in> set (param_ids (optimizer st))
                    then (if requires_grad p
                          then p\<lparr>data := adam_update be (opt_state (optimizer st)) j (data p) g,
                                 grad := Some g\<rparr>
                          else p\<lparr>grad := None\<rparr>)
                    else (if requires_grad p
                          then p\<lparr>grad := Some (case grad p of None \<Rightarrow> g | Some g0 \<Rightarrow> g0 + g)\<rparr>
                          else p))"
    using st'(4) by (simp add: zero_grad_backward_step_nth Let_def)
  show ?thesis
    apply (rule exI[of _ st'], rule exI[of _ new], rule exI[of _ ss])
    using st'(1,2,3,6,7) tl(2-7) len opt params by simp
qed

text \<open>
  Two tasks, one batch each, a frozen tensor 7 and a trainable coefficient 0 that still
  carries the gradient 100 of an earlier iteration: the losses \<open>2 * (5 + 1)\<close> and
  \<open>2 * (10 + 1)\<close> are logged as 34, and the coefficient ends with the gradient 1 of this
  iteration and the tensor \<open>0 - 1\<close>.
\<close>

theorem train_step_effects_witness:
  "\<exists>st'. train_step \<lparr>compute_logits_fn = (\<lambda>m x t. x + 1), entropy_loss_fn = (\<lambda>l. 2 * l),
              gradient_fn = (\<lambda>m d i. 1), adam_update = (\<lambda>s i v g. v - g),
              adam_advance = (\<lambda>s. s)\<rparr> [''dtd'', ''sun397''] 4
           \<lparr>model = [\<lparr>data = 7 :: int, requires_grad = False, grad = None\<rparr>,
                     \<lparr>data = 0, requires_grad = True, grad = Some 100\<rparr>],
            optimizer = \<lparr>param_ids = [1], opt_state = (), steps_taken = 0\<rparr>,
            visual_projection = \<lparr>data = 1, requires_grad = False, grad = None\<rparr>,
            streams = [''dtd'' \<mapsto> utils_InfiniteDataLoader (sequential_loader [(5 :: int, 0 :: nat)]),
                       ''sun397'' \<mapsto> utils_InfiniteDataLoader (sequential_loader [(10, 0)])],
            logged = [], checkpoints = [], step_idx = Some 4\<rparr> = Inr st'
      \<and> logged st' = [(4, 34)]
      \<and> model st' = [\<lparr>data = 7, requires_grad = False, grad = None\<rparr>,
                      \<lparr>data = - 1, requires_grad = True, grad = Some 1\<rparr>]
      \<and> optimizer st' = \<lparr>param_ids = [1], opt_state = (), steps_taken = 1\<rparr>"
proof -
  let ?be = "\<lparr>compute_logits_fn = (\<lambda>m (x :: int) t. x + 1), entropy_loss_fn = (\<lambda>l. 2 * l),
              gradient_fn = (\<lambda>m d i. 1), adam_update = (\<lambda>s i v g. v - g),
              adam_advance = (\<lambda>s :: unit. s)\<rparr>"
  let ?st = "\<lparr>model = [\<lparr>data = 7 :: int, requires_grad = False, grad = None\<rparr>,
                     \<lparr>data = 0, requires_grad = True, grad = Some 100\<rparr>],
            optimizer = \<lparr>param_ids = [1], opt_state = (), steps_taken = 0\<rparr>,
            visual_projection = \<lparr>data = 1, requires_grad = False, grad = None\<rparr>,
            streams = [''dtd'' \<mapsto> utils_InfiniteDataLoader (sequential_loader [(5 :: int, 0 :: nat)]),
                       ''sun397'' \<mapsto> utils_InfiniteDataLoader (sequential_loader [(10, 0)])],
            logged = [], checkpoints = [], step_idx = Some 4\<rparr>"
  have live: "live_streams [''dtd'', ''sun397''] (streams ?st)"
    by (simp add: InfiniteDataLoader_init_epochs sequential_loader_def)
  from train_step_effects[where model_names = "[''dtd'', ''sun397'']" and st = ?st and be = ?be
      and i = 4, OF _ live]
  obtain st' drawn where r: "train_step ?be [''dtd'', ''sun397''] 4 ?st = Inr st'"
     "length (model st') = length (model ?st)"
     "\<forall>j<length (model ?st).
              model st' ! j =
                (let p = model ?st ! j; g = gradient_fn ?be (map data (model ?st)) drawn j
                 in if j \<in> set (param_ids (optimizer ?st))
                    then (if requires_grad p
                          then p\<lparr>data := adam_update ?be (opt_state (optimizer ?st)) j (data p) g,
                                 grad := Some g\<rparr>
                          else p\<lparr>grad := None\<rparr>)
                    else (if requires_grad p
                          then p\<lparr>grad := Some (case grad p of None \<Rightarrow> g | Some g0 \<Rightarrow> g0 + g)\<rparr>
                          else p))"
     "optimizer st' =
              (optimizer ?st)\<lparr>opt_state := adam_advance ?be (opt_state (optimizer ?st)),
                              steps_taken := Suc (steps_taken (optimizer ?st))\<rparr>"
    by blast
  have m0: "model st' ! 0 = \<lparr>data = 7, requires_grad = False, grad = None\<rparr>"
    using r(3)[rule_format, of 0] by simp
  have m1: "model st' ! 1 = \<lparr>data = - 1, requires_grad = True, grad = Some 1\<rparr>"
    using r(3)[rule_format, of 1] by simp
  have "length (model st') = 2" using r(2) by simp
  then have m: "model st' = [\<lparr>data = 7, requires_grad = False, grad = None\<rparr>,
                      \<lparr>data = - 1, requires_grad = True, grad = Some 1\<rparr>]"
    using m0 m1 by (auto simp: list_eq_iff_nth_eq less_Suc_eq numeral_2_eq_2)
  have ev: "train_step ?be [''dtd'', ''sun397''] 4 ?st = Inr st1 \<Longrightarrow>
      logged st1 = [(4, 34)]" for st1
    by (auto simp: train_step_def Let_def InfiniteDataLoader_next_def InfiniteDataLoader_init_def
        iter_loader_def sequential_loader_def optimizer_step_def)
  from ev[OF r(1)] r(1,4) m show ?thesis by (intro exI[of _ st']) simp
qed

text \<open>
  Claim C3 as stated speaks of each iteration.  An iteration over no task raises
  \<^verbatim>\<open>AttributeError\<close> (\<^verbatim>\<open>losses\<close> is still the integer 0 when it is backpropagated),
  and an iteration in which a task's loader yields no batch raises \<^verbatim>\<open>StopIteration\<close>
  at the draw; neither takes an optimizer step or logs a loss.
\<close>

theorem train_step_raises:
  "train_step example_backend [] 0 (example_state [] (sequential_loader [(5, 0)]))
     = Inl AttributeError
   \<and> train_step example_backend [''dtd''] 0 (example_state [''dtd''] (sequential_loader []))
     = Inl StopIteration"
  by (simp add: train_step_def example_state_def load_datasets_def
      InfiniteDataLoader_next_def InfiniteDataLoader_init_def iter_loader_def sequential_loader_def)

subsection \<open>The checkpoint schedule\<close>

lemma task_loop_total:
  assumes "live_streams names strs"
  shows "\<exists>losses strs' drawn'.
           task_loop be m names strs l d = Inr (losses, strs', drawn')
         \<and> (\<forall>ns. live_streams ns strs \<longrightarrow> live_streams ns strs')"
  using assms
proof (induction names arbitrary: strs l d)
  case Nil
  then show ?case by simp
next
  case (Cons t rest)
  from Cons.prems obtain it where it: "strs t = Some it" "\<forall>k. epochs (data_loader it) k \<noteq> []"
    by auto
  from InfiniteDataLoader_next_total[OF it(2)] obtain x y it'
    where nx: "InfiniteDataLoader_next it = Inr ((x, y), it')"
      and ep: "epochs (data_loader it') = epochs (data_loader it)"
    by (metis surj_pair)
  let ?strs1 = "strs(t \<mapsto> it')"
  let ?loss = "entropy_loss_fn be (compute_logits_fn be m x t)"
  have keep: "live_streams ns ?strs1" if "live_streams ns strs" for ns
    using that it ep by auto
  have "live_streams rest strs" using Cons.prems by simp
  then have "live_streams rest ?strs1" by (rule keep)
  from Cons.IH[OF this, of "l + ?loss" "d @ [(t, x)]"]
  obtain losses strs' drawn' where ih:
    "task_loop be m rest ?strs1 (l + ?loss) (d @ [(t, x)]) = Inr (losses, strs', drawn')"
    "\<forall>ns. live_streams ns ?strs1 \<longrightarrow> live_streams ns strs'"
    by blast
  have "task_loop be m (t # rest) strs l d = Inr (losses, strs', drawn')"
    using it nx ih(1) by (simp add: Let_def)
  moreover have "\<forall>ns. live_streams ns strs \<longrightarrow> live_streams ns strs'"
    using keep ih(2) by blast
  ultimately show ?case by blast
qed

lemma train_step_total:
  assumes "model_names \<noteq> []" and "live_streams model_names (streams st)"
  shows "\<exists>st'. train_step be model_names i st = Inr st'
         \<and> live_streams model_names (streams st')
         \<and> checkpoints st' = checkpoints st \<and> step_idx st' = step_idx st"
proof -
  from task_loop_total[OF assms(2), of be "map data (model st)" 0 "[]"]
  obtain losses strs' new where tl:
    "task_loop be (map data (model st)) model_names (streams st) 0 [] = Inr (losses, strs', new)"
    "live_streams model_names strs'"
    using assms(2) by blast
  obtain st' where "train_step be model_names i st = Inr st'" "streams st' = strs'"
      "checkpoints st' = checkpoints st" "step_idx st' = step_idx st"
    using tl(1) assms(1) by (simp add: train_step_def Let_def optimizer_step_def)
  with tl(2) show ?thesis by auto
qed

lemma loop_body_total:
  assumes "save_interval \<noteq> 0" and "model_names \<noteq> []"
    and "live_streams model_names (streams st)"
  shows "\<exists>st'. loop_body be model_names save_interval i st = Inr st'
         \<and> live_streams model_names (streams st')
         \<and> step_idx st' = Some i
         \<and> checkpoints st' = checkpoints st @
             (if (i + 1) mod save_interval = 0 then [(i, map data (model st'))] else [])"
proof -
  let ?st0 = "st\<lparr>step_idx := Some i\<rparr>"
  have "live_streams model_names (streams ?st0)" using assms(3) by simp
  from train_step_total[OF assms(2) this, of be i]
  obtain st1 where st1: "train_step be model_names i ?st0 = Inr st1"
      "live_streams model_names (streams st1)"
      "checkpoints st1 = checkpoints st" "step_idx st1 = Some i"
    by auto
  show ?thesis
  proof (cases "(i + 1) mod save_interval = 0")
    case True
    then have "loop_body be model_names save_interval i st = Inr (save_checkpoint i st1)"
      using st1(1) assms(1) by (simp add: loop_body_def py_mod_def)
    with st1 True show ?thesis by (simp add: save_checkpoint_def)
  next
    case False
    then have "loop_body be model_names save_interval i st = Inr st1"
      using st1(1) assms(1) by (simp add: loop_body_def py_mod_def)
    with st1 False show ?thesis by simp
  qed
qed

lemma for_steps_total:
  assumes "save_interval \<noteq> 0" and "model_names \<noteq> []"
    and "live_streams model_names (streams st)"
  shows "\<exists>st'. for_steps be model_names save_interval steps st = Inr st'
         \<and> live_streams model_names (streams st')
         \<and> step_idx st' = (if steps = [] then step_idx st else Some (last steps))
         \<and> map fst (checkpoints st') =
             map fst (checkpoints st) @ filter (\<lambda>i. (i + 1) mod save_interval = 0) steps
         \<and> (steps \<noteq> [] \<and> (last steps + 1) mod save_interval = 0 \<longrightarrow>
               checkpoints st' \<noteq> [] \<and>
               last (checkpoints st') = (last steps, map data (model st')))"
  using assms(3)
proof (induction steps arbitrary: st)
  case Nil
  then show ?case by simp
next
  case (Cons i rest)
  from loop_body_total[OF assms(1,2) Cons.prems, of be i]
  obtain st1 where st1: "loop_body be model_names save_interval i st = Inr st1"
      "live_streams model_names (streams st1)" "step_idx st1 = Some i"
      "checkpoints st1 = checkpoints st @
             (if (i + 1) mod save_interval = 0 then [(i, map data (model st1))] else [])"
    by auto
  from Cons.IH[OF st1(2)]
  obtain st' where st': "for_steps be model_names save_interval rest st1 = Inr st'"
      "live_streams model_names (streams st')"
      "step_idx st' = (if rest = [] then step_idx st1 else Some (last rest))"
      "map fst (checkpoints st') =
             map fst (checkpoints st1) @ filter (\<lambda>i. (i + 1) mod save_interval = 0) rest"
      "rest \<noteq> [] \<and> (last rest + 1) mod save_interval = 0 \<longrightarrow>
               checkpoints st' \<noteq> [] \<and>
               last (checkpoints st') = (last rest, map data (model st'))"
    by auto
  have run: "for_steps be model_names save_interval (i # rest) st = Inr st'"
    using st1(1) st'(1) by simp
  have idx: "step_idx st' = Some (last (i # rest))"
    using st'(3) st1(3) by simp
  have cps: "map fst (checkpoints st') =
      map fst (checkpoints st) @ filter (\<lambda>i. (i + 1) mod save_interval = 0) (i # rest)"
    using st'(4) st1(4) by simp
  have lst: "(last (i # rest) + 1) mod save_interval = 0 \<longrightarrow>
        checkpoints st' \<noteq> [] \<and>
        last (checkpoints st') = (last (i # rest), map data (model st'))"
  proof (cases "rest = []")
    case True
    then have "st' = st1" using st'(1) by simp
    with True st1(4) show ?thesis by simp
  next
    case False
    with st'(5) show ?thesis by simp
  qed
  from run st'(2) idx cps lst show ?case by simp
qed

lemma live_streams_load_datasets:
  assumes "\<forall>t\<in>set model_names. \<forall>k. epochs (loader_of t) k \<noteq> []"
  shows "live_streams model_names (load_datasets model_names loader_of)"
proof
  fix t assume t: "t \<in> set model_names"
  have "map_of (map (\<lambda>n. (n, InfiniteDataLoader_init (loader_of n))) model_names) t
          = Some (InfiniteDataLoader_init (loader_of t))"
    using t by (induction model_names) auto
  with assms t show "\<exists>it. load_datasets model_names loader_of t = Some it \<and>
       (\<forall>k. epochs (data_loader it) k \<noteq> [])"
    by (simp add: load_datasets_def InfiniteDataLoader_init_epochs)
qed

lemma Adam_trainable:
  assumes "\<exists>p\<in>set ps. requires_grad p"
  shows "Adam sinit ps = Inr \<lparr>param_ids = trainable_ids ps, opt_state = sinit, steps_taken = 0\<rparr>"
proof -
  from assms obtain j where "j < length ps" "requires_grad (ps ! j)"
    by (metis in_set_conv_nth)
  then have "j \<in> set (trainable_ids ps)" by (simp add: trainable_ids_def)
  then have "trainable_ids ps \<noteq> []" by auto
  then show ?thesis by (simp add: Adam_def)
qed

text \<open>
  The schedule of a run that executes at least one iteration.  A run with
  \<open>max_steps \<ge> 1\<close> and \<open>save_interval \<noteq> 0\<close> whose iterations can complete (a non-empty
  task list, loaders that yield a batch on every pass, at least one trainable parameter)
  returns, and the checkpoints it has written are, in order, those of the steps \<open>i\<close> of
  \<open>0 .. max_steps - 1\<close> with \<open>(i + 1) mod save_interval = 0\<close>, followed by one for step
  \<open>max_steps - 1\<close> exactly when that step is not such a save point.  No step is saved
  twice, and the last checkpoint written is step \<open>max_steps - 1\<close> with the tensors of the
  returned model: the final state is persisted exactly once.
\<close>

theorem run_checkpoint_schedule:
  assumes "0 < max_steps" and "save_interval \<noteq> 0"
    and "model_names \<noteq> []"
    and "\<forall>t\<in>set model_names. \<forall>k. epochs (loader_of t) k \<noteq> []"
    and "\<exists>p\<in>set ps. requires_grad p"
  shows "\<exists>st. run be model_names loader_of sinit ps proj max_steps save_interval = Inr st
         \<and> map fst (checkpoints st) =
             filter (\<lambda>i. (i + 1) mod save_interval = 0) [0..max_steps - 1] @
             (if max_steps mod save_interval \<noteq> 0 then [max_steps - 1] else [])
         \<and> distinct (map fst (checkpoints st))
         \<and> checkpoints st \<noteq> []
         \<and> last (checkpoints st) = (max_steps - 1, map data (model st))"
proof -
  let ?opt = "\<lparr>param_ids = trainable_ids ps, opt_state = sinit, steps_taken = 0\<rparr>"
  let ?st0 = "\<lparr>model = ps, optimizer = ?opt,
                  visual_projection = set_requires_grad False proj,
                  streams = load_datasets model_names loader_of,
                  logged = [], checkpoints = [], step_idx = None\<rparr>"
  let ?steps = "[0..max_steps - 1]"
  have steps: "?steps \<noteq> []" "last ?steps = max_steps - 1"
    using assms(1) by (simp_all add: upto_rec2)
  have "live_streams model_names (streams ?st0)"
    using live_streams_load_datasets[OF assms(4)] by simp
  from for_steps_total[OF assms(2,3) this, of be ?steps]
  obtain st1 where st1: "for_steps be model_names save_interval ?steps ?st0 = Inr st1"
      "step_idx st1 = Some (max_steps - 1)"
      "map fst (checkpoints st1) = filter (\<lambda>i. (i + 1) mod save_interval = 0) ?steps"
      "max_steps mod save_interval = 0 \<longrightarrow>
               checkpoints st1 \<noteq> [] \<and>
               last (checkpoints st1) = (max_steps - 1, map data (model st1))"
    using steps by auto
  have dist1: "distinct (map fst (checkpoints st1))"
    using st1(3) by simp
  have notin: "max_steps mod save_interval \<noteq> 0 \<Longrightarrow> max_steps - 1 \<notin> set (map fst (checkpoints st1))"
    using st1(3) by simp
  show ?thesis
  proof (cases "max_steps mod save_interval = 0")
    case True
    then have "run be model_names loader_of sinit ps proj max_steps save_interval = Inr st1"
      using st1(1,2) assms(2) Adam_trainable[OF assms(5), of sinit]
      by (simp add: run_def after_loop_def py_mod_def)
    with True st1 dist1 show ?thesis by simp
  next
    case False
    then have "run be model_names loader_of sinit ps proj max_steps save_interval
        = Inr (save_checkpoint (max_steps - 1) st1)"
      using st1(1,2) assms(2) Adam_trainable[OF assms(5), of sinit]
      by (simp add: run_def after_loop_def py_mod_def)
    with False st1 dist1 notin show ?thesis by (simp add: save_checkpoint_def)
  qed
qed

lemma upto_eval_10: "[0..9] = [0, 1, 2, 3, 4, 5, 6, 7, 8, 9 :: int]"
  by code_simp

text \<open>\<^verbatim>\<open>max_steps = 10\<close>, \<^verbatim>\<open>save_interval = 3\<close>: checkpoints of steps 2, 5, 8 and 9.\<close>

theorem run_checkpoint_schedule_witness:
  "\<exists>st. run example_backend [''dtd''] example_loader_of ()
          [\<lparr>data = 0, requires_grad = True, grad = None\<rparr>]
          \<lparr>data = 1, requires_grad = True, grad = None\<rparr> 10 3 = Inr st
        \<and> map fst (checkpoints st) = [2, 5, 8, 9]"
  using run_checkpoint_schedule[where max_steps = 10 and save_interval = 3
      and model_names = "[''dtd'']" and loader_of = example_loader_of
      and ps = "[\<lparr>data = 0, requires_grad = True, grad = None\<rparr>]" and sinit = "()"
      and proj = "\<lparr>data = 1, requires_grad = True, grad = None\<rparr>"
      and be = example_backend]
    upto_eval_10
  by (auto simp: example_loader_of_def sequential_loader_def)

text \<open>
  Claim C1 speaks of every run: the state a run ends with is persisted exactly once.  The
  code fails it on a run of no iteration.  With \<^verbatim>\<open>max_steps = 0\<close> the loop body never
  runs, so \<^verbatim>\<open>step_idx\<close> is unbound when the check after the loop reads it: the run ends
  in \<^verbatim>\<open>UnboundLocalError\<close>, with no checkpoint written and no model returned.
\<close>

theorem run_zero_steps:
  "run example_backend [''dtd''] example_loader_of ()
     [\<lparr>data = 0, requires_grad = True, grad = None\<rparr>]
     \<lparr>data = 1, requires_grad = True, grad = None\<rparr> 0 3 = Inl UnboundLocalError"
  by (simp add: run_def Adam_def trainable_ids_def after_loop_def)

subsection \<open>What the optimizer may change\<close>

lemma trainable_ids_set:
  "set (trainable_ids ps) = {i. i < length ps \<and> requires_grad (ps ! i)}"
  by (auto simp: trainable_ids_def)

lemma trainable_ids_params: "map ((!) ps) (trainable_ids ps) = filter requires_grad ps"
proof -
  have "filter requires_grad (map ((!) ps) [0..<length ps])
      = map ((!) ps) (filter (requires_grad \<circ> (!) ps) [0..<length ps])"
    by (rule filter_map)
  then show ?thesis by (simp add: map_nth trainable_ids_def comp_def)
qed

lemma accumulate_grad_flag [simp]:
  "requires_grad (accumulate_grad g p) = requires_grad p"
  by (simp add: accumulate_grad_def)

lemma accumulate_grad_frozen: "\<not> requires_grad p \<Longrightarrow> accumulate_grad g p = p"
  by (simp add: accumulate_grad_def)

lemma train_step_frame:
  assumes "train_step be model_names i st = Inr st'"
    and "param_ids (optimizer st) = trainable_ids ps0"
    and "frozen_kept ps0 (model st)"
    and "\<not> requires_grad (visual_projection st)"
  shows "param_ids (optimizer st') = trainable_ids ps0 \<and> frozen_kept ps0 (model st')
       \<and> visual_projection st' = visual_projection st"
proof -
  obtain losses strs drawn where
    tl: "task_loop be (map data (model st)) model_names (streams st) 0 [] = Inr (losses, strs, drawn)"
    using assms(1) by (auto simp: train_step_def split: sum.splits)
  let ?m1 = "zero_grad (optimizer st) (model st)"
  let ?m2 = "backward be drawn ?m1"
  let ?m3 = "fst (optimizer_step be (optimizer st) ?m2)"
  have st': "model st' = ?m3" "param_ids (optimizer st') = param_ids (optimizer st)"
      "visual_projection st' = accumulate_grad (gradient_fn be (map data ?m1) drawn (length ?m1))
                       (visual_projection st)"
    using assms(1) tl
    by (auto simp: train_step_def Let_def optimizer_step_def split: if_splits)
  have len: "length ?m3 = length ps0"
    using assms(3) by (simp add: optimizer_step_def)
  have pt: "requires_grad (?m3 ! j) = requires_grad (ps0 ! j) \<and>
        (\<not> requires_grad (ps0 ! j) \<longrightarrow> ?m3 ! j = ps0 ! j)" if j: "j < length ps0" for j
  proof -
    have jl: "j < length (model st)" using j assms(3) by simp
    have mem: "j \<in> set (param_ids (optimizer st)) \<longleftrightarrow> requires_grad (ps0 ! j)"
      using j assms(2) by (simp add: trainable_ids_set)
    have m1: "?m1 ! j = (if requires_grad (ps0 ! j) then (model st ! j)\<lparr>grad := None\<rparr> else model st ! j)"
      using jl mem by (simp add: zero_grad_def on_params_nth)
    have m2: "?m2 ! j = accumulate_grad (gradient_fn be (map data ?m1) drawn j) (?m1 ! j)"
      using jl by (simp add: backward_nth)
    have m3: "?m3 ! j = (if requires_grad (ps0 ! j)
          then (case grad (?m2 ! j) of None \<Rightarrow> ?m2 ! j
                | Some g \<Rightarrow> (?m2 ! j)\<lparr>data := adam_update be (opt_state (optimizer st)) j (data (?m2 ! j)) g\<rparr>)
          else ?m2 ! j)"
      using jl mem by (simp add: optimizer_step_def on_params_nth)
    have flag: "requires_grad (model st ! j) = requires_grad (ps0 ! j)"
      using assms(3) j by simp
    show ?thesis
    proof (cases "requires_grad (ps0 ! j)")
      case True
      then show ?thesis using m1 m2 m3 flag by (simp split: option.splits)
    next
      case False
      then have "model st ! j = ps0 ! j" using assms(3) j by simp
      with False show ?thesis using m1 m2 m3 by (simp add: accumulate_grad_frozen)
    qed
  qed
  show ?thesis
    using st' len pt assms(2,4) by (simp add: accumulate_grad_frozen)
qed

lemma loop_body_frame:
  assumes "loop_body be model_names save_interval i st = Inr st'"
    and "param_ids (optimizer st) = trainable_ids ps0"
    and "frozen_kept ps0 (model st)"
    and "\<not> requires_grad (visual_projection st)"
  shows "param_ids (optimizer st') = trainable_ids ps0 \<and> frozen_kept ps0 (model st')
       \<and> visual_projection st' = visual_projection st"
proof -
  obtain st1 where st1: "train_step be model_names i (st\<lparr>step_idx := Some i\<rparr>) = Inr st1"
    and alt: "st' = save_checkpoint i st1 \<or> st' = st1"
    using assms(1) by (auto simp: loop_body_def split: sum.splits if_splits)
  from train_step_frame[OF st1, of ps0] assms(2-4)
  have "param_ids (optimizer st1) = trainable_ids ps0 \<and> frozen_kept ps0 (model st1)
       \<and> visual_projection st1 = visual_projection st"
    by simp
  with alt show ?thesis by (auto simp: save_checkpoint_def)
qed

lemma for_steps_frame:
  assumes "for_steps be model_names save_interval steps st = Inr st'"
    and "param_ids (optimizer st) = trainable_ids ps0"
    and "frozen_kept ps0 (model st)"
    and "\<not> requires_grad (visual_projection st)"
  shows "param_ids (optimizer st') = trainable_ids ps0 \<and> frozen_kept ps0 (model st')
       \<and> visual_projection st' = visual_projection st"
  using assms
proof (induction steps arbitrary: st)
  case Nil
  then show ?case by simp
next
  case (Cons i rest)
  from Cons.prems(1) obtain st1 where
    st1: "loop_body be model_names save_interval i st = Inr st1"
    and rest: "for_steps be model_names save_interval rest st1 = Inr st'"
    by (auto split: sum.splits)
  from loop_body_frame[OF st1 Cons.prems(2-4)]
  have f1: "param_ids (optimizer st1) = trainable_ids ps0" "frozen_kept ps0 (model st1)"
       "visual_projection st1 = visual_projection st"
    by simp_all
  from Cons.IH[OF rest f1(1,2)] f1(3) Cons.prems(4) show ?case by simp
qed

text \<open>
  Claim C8.  The optimizer \<^verbatim>\<open>run\<close> constructs holds exactly the parameters of the
  model whose \<^verbatim>\<open>requires_grad\<close> is set, in the model's order.  After any number of
  iterations of the loop from the state \<^verbatim>\<open>run\<close> starts in, the optimizer still holds
  the same parameters, the model has the same number of parameters, every parameter
  that does not require a gradient (the frozen weights) is exactly as it was, and so is
  the projection of the zero-shot head, on which \<^verbatim>\<open>requires_grad_(False)\<close> was called.
\<close>

theorem optimizer_steps_change_only_trainable:
  assumes "Adam sinit ps = Inr opt"
    and "for_steps be model_names save_interval steps
           \<lparr>model = ps, optimizer = opt,
            visual_projection = set_requires_grad False proj,
            streams = strs, logged = [], checkpoints = [], step_idx = None\<rparr> = Inr st"
  shows "map ((!) ps) (param_ids opt) = filter requires_grad ps
       \<and> param_ids (optimizer st) = param_ids opt
       \<and> length (model st) = length ps
       \<and> (\<forall>i<length ps. \<not> requires_grad (ps ! i) \<longrightarrow> model st ! i = ps ! i)
       \<and> visual_projection st = set_requires_grad False proj"
proof -
  have ids: "param_ids opt = trainable_ids ps"
    using assms(1) by (auto simp: Adam_def split: if_splits)
  let ?st0 = "\<lparr>model = ps, optimizer = opt,
            visual_projection = set_requires_grad False proj,
            streams = strs, logged = [], checkpoints = [], step_idx = None\<rparr>"
  have "param_ids (optimizer ?st0) = trainable_ids ps" "frozen_kept ps (model ?st0)"
    "\<not> requires_grad (visual_projection ?st0)"
    using ids by (simp_all add: set_requires_grad_def)
  from for_steps_frame[OF assms(2) this]
  show ?thesis using ids by (auto simp: trainable_ids_params)
qed

text \<open>Two iterations over a frozen tensor 7 and a trainable coefficient.\<close>

theorem optimizer_steps_change_only_trainable_witness:
  "\<exists>st. for_steps \<lparr>compute_logits_fn = (\<lambda>m x t. x), entropy_loss_fn = (\<lambda>l. l),
              gradient_fn = (\<lambda>m d i. 1), adam_update = (\<lambda>s i v g. v - g),
              adam_advance = (\<lambda>s. s)\<rparr> [''dtd''] 3 [0, 1]
           \<lparr>model = [\<lparr>data = 7 :: int, requires_grad = False, grad = None\<rparr>,
                     \<lparr>data = 0, requires_grad = True, grad = None\<rparr>],
            optimizer = \<lparr>param_ids = [1], opt_state = (), steps_taken = 0\<rparr>,
            visual_projection = \<lparr>data = 1, requires_grad = False, grad = None\<rparr>,
            streams = [''dtd'' \<mapsto> InfiniteDataLoader_init (sequential_loader [(5 :: int, 0 :: nat)])],
            logged = [], checkpoints = [], step_idx = None\<rparr> = Inr st
      \<and> model st ! 0 = \<lparr>data = 7, requires_grad = False, grad = None\<rparr>
      \<and> visual_projection st = \<lparr>data = 1, requires_grad = False, grad = None\<rparr>"
proof -
  let ?be = "\<lparr>compute_logits_fn = (\<lambda>m (x :: int) t. x), entropy_loss_fn = (\<lambda>l. l),
              gradient_fn = (\<lambda>m d i. 1), adam_update = (\<lambda>s i v g. v - g),
              adam_advance = (\<lambda>s :: unit. s)\<rparr>"
  let ?ps = "[\<lparr>data = 7 :: int, requires_grad = False, grad = None\<rparr>,
              \<lparr>data = 0, requires_grad = True, grad = None\<rparr>]"
  let ?strs = "[''dtd'' \<mapsto> InfiniteDataLoader_init (sequential_loader [(5 :: int, 0 :: nat)])]"
  let ?opt = "\<lparr>param_ids = [1], opt_state = (), steps_taken = 0\<rparr>"
  let ?st0 = "\<lparr>model = ?ps, optimizer = ?opt,
            visual_projection = set_requires_grad False \<lparr>data = 1, requires_grad = True, grad = None\<rparr>,
            streams = ?strs, logged = [], checkpoints = [], step_idx = None\<rparr>"
  have adam: "Adam () ?ps = Inr ?opt"
    by (simp add: Adam_def trainable_ids_def)
  have live: "live_streams [''dtd''] (streams ?st0)"
    by (simp add: InfiniteDataLoader_init_epochs sequential_loader_def)
  have sr: "set_requires_grad False \<lparr>data = 1 :: int, requires_grad = True, grad = None\<rparr>
      = \<lparr>data = 1, requires_grad = False, grad = None\<rparr>"
    by (simp add: set_requires_grad_def)
  from for_steps_total[where save_interval = 3 and model_names = "[''dtd'']" and st = ?st0
      and be = ?be and steps = "[0, 1]", OF _ _ live]
  obtain st where st: "for_steps ?be [''dtd''] 3 [0, 1] ?st0 = Inr st"
    by auto
  from optimizer_steps_change_only_trainable[OF adam st]
  have fr: "\<forall>i<length ?ps. \<not> requires_grad (?ps ! i) \<longrightarrow> model st ! i = ?ps ! i"
    and vp: "visual_projection st = \<lparr>data = 1, requires_grad = False, grad = None\<rparr>"
    by (simp_all add: sr)
  from fr[rule_format, of 0] have "model st ! 0 = \<lparr>data = 7, requires_grad = False, grad = None\<rparr>"
    by simp
  with vp st show ?thesis by (intro exI[of _ st]) (simp add: sr)
qed

subsection \<open>Resolving the hidden size\<close>

text \<open>
  Claim C7, as amended.  When \<^verbatim>\<open>hidden_size\<close> is \<^verbatim>\<open>None\<close> and cannot be inferred (the
  feature extractor has no \<^verbatim>\<open>config\<close>, or the config has no \<^verbatim>\<open>hidden_sizes\<close>, or
  \<^verbatim>\<open>hidden_sizes\<close> is empty), \<^verbatim>\<open>load_models\<close> fails before the model's constructor is
  called, whatever that constructor is: with \<^verbatim>\<open>IndexError\<close> for an empty list and with
  \<^verbatim>\<open>AttributeError\<close> for a missing attribute, never with a \<^verbatim>\<open>ConfigurationError\<close>.
\<close>

theorem load_models_unresolved_hidden_size:
  assumes "config fe = None \<or>
           (\<exists>c. config fe = Some c \<and> (hidden_sizes c = None \<or> hidden_sizes c = Some []))"
  shows "load_models None fe build_model =
           Inl (if \<exists>c. config fe = Some c \<and> hidden_sizes c = Some []
                then IndexError else AttributeError)
       \<and> load_models None fe build_model \<noteq> Inl ConfigurationError"
  using assms by (auto simp: load_models_def infer_hidden_size_def)

text \<open>A feature extractor whose config has an empty \<^verbatim>\<open>hidden_sizes\<close>.\<close>

theorem load_models_unresolved_hidden_size_witness:
  "load_models None (FeatureExtractor (Some (ExtractorConfig (Some []))))
      (Inr :: int \<Rightarrow> py_error + int) = Inl IndexError"
  using load_models_unresolved_hidden_size
    [of "FeatureExtractor (Some (ExtractorConfig (Some [])))" "Inr :: int \<Rightarrow> py_error + int"]
  by simp

text \<open>
  Claim C7 as stated names \<^verbatim>\<open>ConfigurationError\<close>.  For a feature extractor without a
  \<^verbatim>\<open>config\<close> attribute the failure is an \<^verbatim>\<open>AttributeError\<close>.
\<close>

theorem load_models_no_config_attribute:
  "load_models None (FeatureExtractor None) (Inr :: int \<Rightarrow> py_error + int) = Inl AttributeError"
  by (simp add: load_models_def infer_hidden_size_def)

text \<open>When the size is given or can be inferred, the constructor receives it.\<close>

lemma load_models_resolved:
  "load_models (Some h) fe build_model = build_model h"
  "config fe = Some c \<Longrightarrow> hidden_sizes c = Some hs \<Longrightarrow> hs \<noteq> [] \<Longrightarrow>
   load_models None fe build_model = build_model (last hs)"
  by (simp_all add: load_models_def infer_hidden_size_def)

subsection \<open>The zero-shot head cache\<close>

lemma basename_no_slash: "CHR ''/'' \<notin> set (basename path)"
  unfolding basename_def set_rev
  using set_takeWhileD by fastforce

lemma cache_file_shape:
  "cache_file cache_dir pretrained_path task =
     (if cache_dir = [] \<or> last cache_dir = CHR ''/'' then cache_dir else cache_dir @ ''/'')
     @ basename pretrained_path @ ''_'' @ task @ ''_zeroshot_weights.pt''"
proof -
  let ?name = "basename pretrained_path @ ''_'' @ task @ ''_zeroshot_weights.pt''"
  have "hd ?name \<noteq> CHR ''/''"
  proof (cases "basename pretrained_path")
    case Nil
    then show ?thesis by simp
  next
    case (Cons c cs)
    then have "c \<in> set (basename pretrained_path)" by simp
    then have "c \<noteq> CHR ''/''" using basename_no_slash by metis
    with Cons show ?thesis by simp
  qed
  then show ?thesis by (simp add: cache_file_def path_join_def)
qed

lemma cache_file_inj:
  "cache_file cache_dir pretrained_path t = cache_file cache_dir pretrained_path t' \<Longrightarrow> t = t'"
  by (simp add: cache_file_shape)

lemma load_or_compute_hit:
  assumes "files w path = Some saved"
  shows "load_or_compute env clip path task w =
           Inr (length (tensors w),
                w\<lparr>trace := trace w @ [PathExists path, TorchLoad path],
                  tensors := tensors w @ [saved]\<rparr>)"
  using assms by (simp add: load_or_compute_def alloc_tensor_def Let_def)

lemma load_or_compute_miss:
  assumes "files w path = None" and "get_classnames_and_templates env task = Inr ct"
    and "parent_exists path w"
  shows "load_or_compute env clip path task w =
           Inr (length (tensors w),
                w\<lparr>trace := trace w @ [PathExists path, EncodeText task, TorchSave path],
                  tensors := tensors w @ [clip_encode_text clip ct],
                  files := (files w)(path \<mapsto> clip_encode_text clip ct)\<rparr>)"
  using assms
  by (simp add: load_or_compute_def alloc_tensor_def torch_save_def parent_exists_def Let_def)

lemma load_or_compute_miss_error:
  assumes "files w path = None" and "get_classnames_and_templates env task = Inl e"
  shows "load_or_compute env clip path task w = Inl e"
  using assms by (simp add: load_or_compute_def alloc_tensor_def Let_def)

lemma load_or_compute_no_directory:
  assumes "files w path = None" and "\<not> parent_exists path w"
  shows "\<exists>e. load_or_compute env clip path task w = Inl e"
  using assms
  by (cases "get_classnames_and_templates env task")
     (simp_all add: load_or_compute_def alloc_tensor_def torch_save_def parent_exists_def Let_def)

lemma build_head_result:
  assumes ok: "build_head env clip cls self pretrained_path task w = Inr w'"
    and d: "zeroshot_weights_of cls self < length (dicts w)"
  shows "\<exists>v a.
      (case files w (cache_file (config_cache_dir self) pretrained_path task) of
         Some saved \<Rightarrow> v = saved
       | None \<Rightarrow> \<exists>ct. get_classnames_and_templates env task = Inr ct
                       \<and> v = clip_encode_text clip ct)
    \<and> files w' = (files w)(cache_file (config_cache_dir self) pretrained_path task \<mapsto> v)
    \<and> trace w' = trace w @
         head_events (files w) (cache_file (config_cache_dir self) pretrained_path task) task
    \<and> dicts w' = (dicts w)[zeroshot_weights_of cls self :=
                     (dicts w ! zeroshot_weights_of cls self)(task \<mapsto> a)]
    \<and> length (tensors w) \<le> a \<and> a < length (tensors w') \<and> tensors w' ! a = head_device env self v
    \<and> take (length (tensors w)) (tensors w') = tensors w
    \<and> directories w' = directories w"
proof -
  let ?p = "cache_file (config_cache_dir self) pretrained_path task"
  let ?d = "zeroshot_weights_of cls self"
  have "\<exists>v. (case files w ?p of
               Some saved \<Rightarrow> v = saved
             | None \<Rightarrow> \<exists>ct. get_classnames_and_templates env task = Inr ct
                            \<and> v = clip_encode_text clip ct)
          \<and> load_or_compute env clip ?p task w =
              Inr (length (tensors w),
                   w\<lparr>trace := trace w @ head_events (files w) ?p task,
                     tensors := tensors w @ [v],
                     files := (files w)(?p \<mapsto> v)\<rparr>)"
  proof (cases "files w ?p")
    case None
    have pe: "parent_exists ?p w"
    proof (rule ccontr)
      assume "\<not> parent_exists ?p w"
      from load_or_compute_no_directory[OF None this, of env clip task]
      obtain e where "load_or_compute env clip ?p task w = Inl e" by blast
      with ok show False by (simp add: build_head_def)
    qed
    obtain ct where ct: "get_classnames_and_templates env task = Inr ct"
      using ok load_or_compute_miss_error[OF None, of env task _ clip]
      by (cases "get_classnames_and_templates env task") (auto simp: build_head_def)
    from load_or_compute_miss[OF None ct pe, of clip] None ct show ?thesis
      by (intro exI[of _ "clip_encode_text clip ct"]) simp
  next
    case (Some saved)
    have triv: "(files w)(?p \<mapsto> saved) = files w" using Some by (rule map_upd_triv)
    from load_or_compute_hit[OF Some, of env clip task] Some triv show ?thesis
      by (intro exI[of _ saved]) simp
  qed
  then obtain v where
    v: "case files w ?p of
               Some saved \<Rightarrow> v = saved
             | None \<Rightarrow> \<exists>ct. get_classnames_and_templates env task = Inr ct
                            \<and> v = clip_encode_text clip ct"
    and lc: "load_or_compute env clip ?p task w =
              Inr (length (tensors w),
                   w\<lparr>trace := trace w @ head_events (files w) ?p task,
                     tensors := tensors w @ [v],
                     files := (files w)(?p \<mapsto> v)\<rparr>)"
    by blast
  show ?thesis
  proof (cases "fabric_present self")
    case False
    with ok lc d v show ?thesis
      apply (intro exI[of _ v] exI[of _ "length (tensors w)"])
      by (auto simp: build_head_def dict_store_def Let_def)
  next
    case True
    show ?thesis
    proof (cases "to_device env v")
      case None
      with True ok lc d v show ?thesis
        apply (intro exI[of _ v] exI[of _ "length (tensors w)"])
        by (auto simp: build_head_def dict_store_def dict_get_def Let_def)
    next
      case (Some moved)
      with True ok lc d v show ?thesis
        apply (intro exI[of _ v] exI[of _ "Suc (length (tensors w))"])
        by (auto simp: build_head_def dict_store_def dict_get_def alloc_tensor_def Let_def
            nth_append)
    qed
  qed
qed

lemma build_head_total:
  assumes "files w (cache_file (config_cache_dir self) pretrained_path task) = None \<longrightarrow>
           (\<exists>ct. get_classnames_and_templates env task = Inr ct)
         \<and> parent_exists (cache_file (config_cache_dir self) pretrained_path task) w"
    and d: "zeroshot_weights_of cls self < length (dicts w)"
  shows "\<exists>w'. build_head env clip cls self pretrained_path task w = Inr w'"
proof (cases "files w (cache_file (config_cache_dir self) pretrained_path task)")
  case None
  with assms(1) obtain ct where ct: "get_classnames_and_templates env task = Inr ct"
    and pe: "parent_exists (cache_file (config_cache_dir self) pretrained_path task) w"
    by auto
  show ?thesis
    using load_or_compute_miss[OF None ct pe, of clip] d
    by (simp add: build_head_def dict_store_def dict_get_def alloc_tensor_def Let_def
        split: option.split)
next
  case (Some saved)
  show ?thesis
    using load_or_compute_hit[OF Some, of env clip task] d
    by (simp add: build_head_def dict_store_def dict_get_def alloc_tensor_def Let_def
        split: option.split)
qed

lemma build_heads_result:
  assumes "build_heads env clip cls self pretrained_path names w = Inr w'"
    and "distinct names"
    and "zeroshot_weights_of cls self < length (dicts w)"
  shows "(\<forall>t\<in>set names. head_built env clip cls self pretrained_path w w' t)
       \<and> (\<forall>q saved. files w q = Some saved \<longrightarrow> files w' q = Some saved)
       \<and> (\<forall>q. q \<notin> (\<lambda>t. cache_file (config_cache_dir self) pretrained_path t) ` set names \<longrightarrow>
              files w' q = files w q)
       \<and> trace w' = trace w @ concat (map (\<lambda>t. head_events (files w)
              (cache_file (config_cache_dir self) pretrained_path t) t) names)
       \<and> length (dicts w') = length (dicts w)
       \<and> (\<forall>k. k \<notin> set names \<longrightarrow>
              (dicts w' ! zeroshot_weights_of cls self) k = (dicts w ! zeroshot_weights_of cls self) k)
       \<and> take (length (tensors w)) (tensors w') = tensors w
       \<and> directories w' = directories w"
  using assms
proof (induction names arbitrary: w)
  case Nil
  then show ?case by simp
next
  case (Cons t rest)
  let ?p = "\<lambda>t. cache_file (config_cache_dir self) pretrained_path t"
  let ?d = "zeroshot_weights_of cls self"
  from Cons.prems(1) obtain w1 where
    h: "build_head env clip cls self pretrained_path t w = Inr w1"
    and r: "build_heads env clip cls self pretrained_path rest w1 = Inr w'"
    by (auto split: sum.splits)
  from build_head_result[OF h Cons.prems(3)] obtain v a where
    v: "case files w (?p t) of Some saved \<Rightarrow> v = saved
        | None \<Rightarrow> \<exists>ct. get_classnames_and_templates env t = Inr ct \<and> v = clip_encode_text clip ct"
    and f1: "files w1 = (files w)(?p t \<mapsto> v)"
    and tr1: "trace w1 = trace w @ head_events (files w) (?p t) t"
    and d1: "dicts w1 = (dicts w)[?d := (dicts w ! ?d)(t \<mapsto> a)]"
    and a: "length (tensors w) \<le> a" "a < length (tensors w1)" "tensors w1 ! a = head_device env self v"
    and pre1: "take (length (tensors w)) (tensors w1) = tensors w"
    and dir1: "directories w1 = directories w"
    by blast
  have dist: "distinct rest" and t_rest: "t \<notin> set rest" using Cons.prems(2) by auto
  have dlen: "?d < length (dicts w1)" using d1 Cons.prems(3) by simp
  note ih = Cons.IH[OF r dist dlen]
  have samep: "files w1 (?p t') = files w (?p t')" if "t' \<in> set rest" for t'
  proof -
    from that t_rest have "t' \<noteq> t" by auto
    then have "?p t' \<noteq> ?p t" using cache_file_inj by blast
    then show ?thesis using f1 by simp
  qed
  have len1: "length (tensors w) \<le> length (tensors w1)"
    using a by simp
  have pre': "take (length (tensors w1)) (tensors w') = tensors w1" using ih by simp
  have nth_keep: "tensors w' ! b = tensors w1 ! b" if "b < length (tensors w1)" for b
    using that pre' by (metis nth_take)
  have len': "length (tensors w1) \<le> length (tensors w')"
    using pre' by (metis length_take min.cobounded1)
  have built_t: "head_built env clip cls self pretrained_path w w' t"
  proof -
    have "files w' (?p t) = Some v" using ih f1 by simp
    moreover have "dict_get ?d t w' = Inr a"
      using ih t_rest d1 Cons.prems(3) by (simp add: dict_get_def)
    moreover have "tensors w' ! a = head_device env self v"
      using nth_keep[OF a(2)] a(3) by simp
    moreover have "a < length (tensors w')" using a(2) len' by simp
    ultimately show ?thesis using v a(1) by blast
  qed
  have built_rest: "head_built env clip cls self pretrained_path w w' t'" if t': "t' \<in> set rest" for t'
  proof -
    from ih t' obtain v' a' where
      "case files w1 (?p t') of Some saved \<Rightarrow> v' = saved
        | None \<Rightarrow> \<exists>ct. get_classnames_and_templates env t' = Inr ct \<and> v' = clip_encode_text clip ct"
      "files w' (?p t') = Some v'" "dict_get ?d t' w' = Inr a'"
      "length (tensors w1) \<le> a'" "a' < length (tensors w')"
      "tensors w' ! a' = head_device env self v'"
      by blast
    with samep[OF t'] len1 show ?thesis
      apply (intro exI[of _ v'] exI[of _ a'])
      by simp
  qed
  have kept: "\<forall>q saved. files w q = Some saved \<longrightarrow> files w' q = Some saved"
  proof (intro allI impI)
    fix q saved assume q: "files w q = Some saved"
    have "files w1 q = Some saved"
    proof (cases "q = ?p t")
      case True
      with q v have "v = saved" by simp
      with True f1 show ?thesis by simp
    next
      case False
      with q f1 show ?thesis by simp
    qed
    with ih show "files w' q = Some saved" by blast
  qed
  have others: "\<forall>q. q \<notin> ?p ` set (t # rest) \<longrightarrow> files w' q = files w q"
    using ih f1 by auto
  have ev_same: "map (\<lambda>t. head_events (files w1) (?p t) t) rest
      = map (\<lambda>t. head_events (files w) (?p t) t) rest"
    using samep by (intro map_cong) auto
  have tr: "trace w' = trace w @ concat (map (\<lambda>t. head_events (files w) (?p t) t) (t # rest))"
    using ih tr1 ev_same by simp
  have dl: "length (dicts w') = length (dicts w)" using ih d1 by simp
  have dk: "\<forall>k. k \<notin> set (t # rest) \<longrightarrow> (dicts w' ! ?d) k = (dicts w ! ?d) k"
    using ih d1 Cons.prems(3) by simp
  have pre: "take (length (tensors w)) (tensors w') = tensors w"
    using pre1 pre' len1 by (metis min.absorb1 take_take)
  have dir: "directories w' = directories w" using ih dir1 by simp
  from built_t built_rest kept others tr dl dk pre dir show ?case
    by simp
qed

lemma build_heads_total:
  assumes "\<forall>t\<in>set names.
             files w (cache_file (config_cache_dir self) pretrained_path t) = None \<longrightarrow>
             (\<exists>ct. get_classnames_and_templates env t = Inr ct)
           \<and> parent_exists (cache_file (config_cache_dir self) pretrained_path t) w"
    and "zeroshot_weights_of cls self < length (dicts w)"
  shows "\<exists>w'. build_heads env clip cls self pretrained_path names w = Inr w'"
  using assms
proof (induction names arbitrary: w)
  case Nil
  then show ?case by simp
next
  case (Cons t rest)
  from build_head_total[of w self pretrained_path t env cls clip] Cons.prems
  obtain w1 where h: "build_head env clip cls self pretrained_path t w = Inr w1"
    by auto
  from build_head_result[OF h Cons.prems(2)]
  obtain v a where "files w1 = (files w)(cache_file (config_cache_dir self) pretrained_path t \<mapsto> v)"
    "dicts w1 = (dicts w)[zeroshot_weights_of cls self :=
                     (dicts w ! zeroshot_weights_of cls self)(t \<mapsto> a)]"
    "directories w1 = directories w"
    by blast
  then have d1: "length (dicts w1) = length (dicts w)"
    and f1: "\<forall>q. files w1 q = None \<longrightarrow> files w q = None"
    and p1: "\<forall>q. parent_exists q w1 = parent_exists q w"
    by (auto simp: parent_exists_def split: if_splits)
  have "\<forall>t\<in>set rest.
             files w1 (cache_file (config_cache_dir self) pretrained_path t) = None \<longrightarrow>
             (\<exists>ct. get_classnames_and_templates env t = Inr ct)
           \<and> parent_exists (cache_file (config_cache_dir self) pretrained_path t) w1"
    using Cons.prems(1) f1 p1 by simp
  from Cons.IH[OF this] d1 Cons.prems(2) h show ?case by simp
qed

lemma on_start_unfold:
  assumes "on_test_time_adaptation_start env cls self w = Inr (self', w')"
  shows "\<exists>pretrained_path clip.
           pretrained_path_of (modelpool_pretrained_config self) = Inr pretrained_path
         \<and> from_pretrained env pretrained_path = Inr clip
         \<and> self' = self\<lparr>self_visual_projection :=
                             Some (set_requires_grad False (clip_visual_projection clip)),
                           self_logit_scale_exp := Some (exp (clip_logit_scale clip))\<rparr>
         \<and> build_heads env clip cls self' pretrained_path (modelpool_model_names self) w = Inr w'"
  using assms
  by (auto simp: on_test_time_adaptation_start_def Let_def split: sum.splits)

lemma on_start_fold:
  assumes "pretrained_path_of (modelpool_pretrained_config self) = Inr pretrained_path"
    and "from_pretrained env pretrained_path = Inr clip"
    and "build_heads env clip cls
           (self\<lparr>self_visual_projection :=
                             Some (set_requires_grad False (clip_visual_projection clip)),
                           self_logit_scale_exp := Some (exp (clip_logit_scale clip))\<rparr>)
           pretrained_path (modelpool_model_names self) w = Inr w'"
  shows "on_test_time_adaptation_start env cls self w =
           Inr (self\<lparr>self_visual_projection :=
                             Some (set_requires_grad False (clip_visual_projection clip)),
                           self_logit_scale_exp := Some (exp (clip_logit_scale clip))\<rparr>, w')"
  using assms by (simp add: on_test_time_adaptation_start_def Let_def)

lemma zeroshot_weights_of_attrs [simp]:
  "zeroshot_weights_of cls (self\<lparr>self_visual_projection := vp, self_logit_scale_exp := ls\<rparr>)
     = zeroshot_weights_of cls self"
  by (simp add: zeroshot_weights_of_def)

lemma on_start_summary:
  assumes pp: "pretrained_path_of (modelpool_pretrained_config self) = Inr pretrained_path"
    and clip: "from_pretrained env pretrained_path = Inr clip"
    and dist: "distinct (modelpool_model_names self)"
    and reg: "\<forall>t\<in>set (modelpool_model_names self).
             files w (cache_file (config_cache_dir self) pretrained_path t) = None \<longrightarrow>
             (\<exists>ct. get_classnames_and_templates env t = Inr ct)
           \<and> parent_exists (cache_file (config_cache_dir self) pretrained_path t) w"
    and d: "zeroshot_weights_of cls self < length (dicts w)"
  shows "\<exists>self' w'.
         on_test_time_adaptation_start env cls self w = Inr (self', w')
       \<and> self' = self\<lparr>self_visual_projection :=
                             Some (set_requires_grad False (clip_visual_projection clip)),
                         self_logit_scale_exp := Some (exp (clip_logit_scale clip))\<rparr>
       \<and> (\<forall>t\<in>set (modelpool_model_names self).
             head_built env clip cls self pretrained_path w w' t)
       \<and> (\<forall>q saved. files w q = Some saved \<longrightarrow> files w' q = Some saved)
       \<and> trace w' = trace w @ concat (map (\<lambda>t. head_events (files w)
              (cache_file (config_cache_dir self) pretrained_path t) t) (modelpool_model_names self))
       \<and> length (dicts w') = length (dicts w)
       \<and> length (tensors w) \<le> length (tensors w')
       \<and> take (length (tensors w)) (tensors w') = tensors w
       \<and> directories w' = directories w"
proof -
  let ?self' = "self\<lparr>self_visual_projection :=
                             Some (set_requires_grad False (clip_visual_projection clip)),
                         self_logit_scale_exp := Some (exp (clip_logit_scale clip))\<rparr>"
  have reg': "\<forall>t\<in>set (modelpool_model_names self).
             files w (cache_file (config_cache_dir ?self') pretrained_path t) = None \<longrightarrow>
             (\<exists>ct. get_classnames_and_templates env t = Inr ct)
           \<and> parent_exists (cache_file (config_cache_dir ?self') pretrained_path t) w"
    using reg by simp
  have d': "zeroshot_weights_of cls ?self' < length (dicts w)" using d by simp
  from build_heads_total[OF reg' d', of clip] obtain w' where
    bh: "build_heads env clip cls ?self' pretrained_path (modelpool_model_names self) w = Inr w'"
    by blast
  have cd: "config_cache_dir ?self' = config_cache_dir self"
    and fp: "fabric_present ?self' = fabric_present self"
    and zw: "zeroshot_weights_of cls ?self' = zeroshot_weights_of cls self"
    by simp_all
  note res = build_heads_result[OF bh dist d', unfolded cd fp zw]
  have len: "length (tensors w) \<le> length (tensors w')"
    using res by (metis length_take min.cobounded1)
  from on_start_fold[OF pp clip bh] res len show ?thesis
    by blast
qed

lemma cache_file_example:
  "cache_file ''cache'' ''openai/clip'' ''dtd'' = ''cache/clip_dtd_zeroshot_weights.pt''"
  "cache_file ''cache'' ''openai/clip'' ''svhn'' = ''cache/clip_svhn_zeroshot_weights.pt''"
  "cache_file ''other'' ''local/vit'' ''svhn'' = ''other/vit_svhn_zeroshot_weights.pt''"
  by (simp_all add: cache_file_def path_join_def basename_def)

lemma dirname_example:
  "dirname ''cache/clip_dtd_zeroshot_weights.pt'' = ''cache''"
  "dirname ''cache/clip_svhn_zeroshot_weights.pt'' = ''cache''"
  "dirname ''other/vit_svhn_zeroshot_weights.pt'' = ''other''"
  by (simp_all add: dirname_def basename_def)

text \<open>
  Claim C4, as amended.  Let the pretrained path resolve, the CLIP model load, the task
  names be distinct and the class's dictionary exist, and for every task whose cache file
  is missing let the registry know the task and the directory of the cache file exist.
  Then \<^verbatim>\<open>on_test_time_adaptation_start\<close> returns, and for every task, in order, it has
  first asked whether the cache file exists, and then either loaded it (no encoder run)
  or run the encoder on the task and saved the result to that same path (the trace).
  Afterwards, for every task, the file at the task's path holds the head's tensor (the
  file's former content, or the encoder's output on the task's class names and
  templates), \<^verbatim>\<open>self.zeroshot_weights[task]\<close> is a tensor object holding it (moved to the
  device when there is a fabric), and no file that existed has been changed.  The path
  is the cache directory, a separator unless the directory is empty or ends with one,
  the base name of the pretrained path, \<^verbatim>\<open>_\<close>, the task and \<^verbatim>\<open>_zeroshot_weights.pt\<close>.
  (Without the directory the save raises: see the counterexample.)
\<close>

theorem zero_shot_head_cache_file:
  assumes "pretrained_path_of (modelpool_pretrained_config self) = Inr pretrained_path"
    and "from_pretrained env pretrained_path = Inr clip"
    and "distinct (modelpool_model_names self)"
    and "\<forall>t\<in>set (modelpool_model_names self).
             files w (cache_file (config_cache_dir self) pretrained_path t) = None \<longrightarrow>
             (\<exists>ct. get_classnames_and_templates env t = Inr ct)
           \<and> parent_exists (cache_file (config_cache_dir self) pretrained_path t) w"
    and "zeroshot_weights_of cls self < length (dicts w)"
  shows "\<exists>self' w'.
         on_test_time_adaptation_start env cls self w = Inr (self', w')
       \<and> trace w' = trace w @ concat (map (\<lambda>t. head_events (files w)
              (cache_file (config_cache_dir self) pretrained_path t) t) (modelpool_model_names self))
       \<and> (\<forall>t\<in>set (modelpool_model_names self). \<exists>v a.
             (case files w (cache_file (config_cache_dir self) pretrained_path t) of
                Some saved \<Rightarrow> v = saved
              | None \<Rightarrow> \<exists>ct. get_classnames_and_templates env t = Inr ct
                             \<and> v = clip_encode_text clip ct)
           \<and> files w' (cache_file (config_cache_dir self) pretrained_path t) = Some v
           \<and> head_lookup cls self' w' t = Inr a \<and> a < length (tensors w')
           \<and> tensors w' ! a = head_device env self v)
       \<and> (\<forall>q saved. files w q = Some saved \<longrightarrow> files w' q = Some saved)
       \<and> (\<forall>t. cache_file (config_cache_dir self) pretrained_path t =
              (if config_cache_dir self = [] \<or> last (config_cache_dir self) = CHR ''/''
               then config_cache_dir self else config_cache_dir self @ ''/'')
              @ basename pretrained_path @ ''_'' @ t @ ''_zeroshot_weights.pt'')"
proof -
  from on_start_summary[OF assms] obtain self' w' where
    st: "on_test_time_adaptation_start env cls self w = Inr (self', w')"
    and self': "self' = self\<lparr>self_visual_projection :=
                             Some (set_requires_grad False (clip_visual_projection clip)),
                         self_logit_scale_exp := Some (exp (clip_logit_scale clip))\<rparr>"
    and built: "\<forall>t\<in>set (modelpool_model_names self).
             head_built env clip cls self pretrained_path w w' t"
    and kept: "\<forall>q saved. files w q = Some saved \<longrightarrow> files w' q = Some saved"
    and tr: "trace w' = trace w @ concat (map (\<lambda>t. head_events (files w)
              (cache_file (config_cache_dir self) pretrained_path t) t) (modelpool_model_names self))"
    by blast
  have lk: "head_lookup cls self' w' t = dict_get (zeroshot_weights_of cls self) t w'" for t
    using self' by (simp add: head_lookup_def)
  have "\<forall>t\<in>set (modelpool_model_names self). \<exists>v a.
             (case files w (cache_file (config_cache_dir self) pretrained_path t) of
                Some saved \<Rightarrow> v = saved
              | None \<Rightarrow> \<exists>ct. get_classnames_and_templates env t = Inr ct
                             \<and> v = clip_encode_text clip ct)
           \<and> files w' (cache_file (config_cache_dir self) pretrained_path t) = Some v
           \<and> head_lookup cls self' w' t = Inr a \<and> a < length (tensors w')
           \<and> tensors w' ! a = head_device env self v"
    unfolding lk using built by blast
  with st tr kept cache_file_shape show ?thesis by blast
qed

text \<open>
  Two tasks in the existing directory \<^verbatim>\<open>cache\<close>, the first with a cache file and the
  second without.
\<close>

theorem zero_shot_head_cache_file_witness:
  "\<exists>self' w'.
     on_test_time_adaptation_start example_env example_class example_algorithm
       ((example_process {''cache''})\<lparr>files := [''cache/clip_dtd_zeroshot_weights.pt'' \<mapsto> 42]\<rparr>)
       = Inr (self', w')
   \<and> trace w' =
       [PathExists ''cache/clip_dtd_zeroshot_weights.pt'',
        TorchLoad ''cache/clip_dtd_zeroshot_weights.pt'',
        PathExists ''cache/clip_svhn_zeroshot_weights.pt'',
        EncodeText ''svhn'',
        TorchSave ''cache/clip_svhn_zeroshot_weights.pt'']
   \<and> files w' ''cache/clip_dtd_zeroshot_weights.pt'' = Some 42
   \<and> files w' ''cache/clip_svhn_zeroshot_weights.pt'' = Some 15"
proof -
  let ?w = "(example_process {''cache''})\<lparr>files := [''cache/clip_dtd_zeroshot_weights.pt'' \<mapsto> 42]\<rparr>"
  have names: "modelpool_model_names example_algorithm = [''dtd'', ''svhn'']"
    and cd: "config_cache_dir example_algorithm = ''cache''"
    by (simp_all add: example_algorithm_def algorithm_init_def)
  have h1: "pretrained_path_of (modelpool_pretrained_config example_algorithm) = Inr ''openai/clip''"
    by (simp add: pretrained_path_of_def example_algorithm_def algorithm_init_def)
  have h2: "from_pretrained example_env ''openai/clip'' = Inr example_clip"
    by (simp add: example_env_def)
  have h3: "distinct (modelpool_model_names example_algorithm)" by (simp add: names)
  have h4: "\<forall>t\<in>set (modelpool_model_names example_algorithm).
             files ?w (cache_file (config_cache_dir example_algorithm) ''openai/clip'' t) = None \<longrightarrow>
             (\<exists>ct. get_classnames_and_templates example_env t = Inr ct)
           \<and> parent_exists (cache_file (config_cache_dir example_algorithm) ''openai/clip'' t) ?w"
    by (simp add: names cd cache_file_example dirname_example parent_exists_def
        example_env_def example_process_def)
  have h5: "zeroshot_weights_of example_class example_algorithm < length (dicts ?w)"
    by (simp add: zeroshot_weights_of_def example_algorithm_def algorithm_init_def
        example_class_def example_process_def)
  from zero_shot_head_cache_file[OF h1 h2 h3 h4 h5]
  obtain self' w' where r:
    "on_test_time_adaptation_start example_env example_class example_algorithm ?w = Inr (self', w')"
    "trace w' = trace ?w @ concat (map (\<lambda>t. head_events (files ?w)
              (cache_file (config_cache_dir example_algorithm) ''openai/clip'' t) t)
              (modelpool_model_names example_algorithm))"
    "\<forall>t\<in>set (modelpool_model_names example_algorithm). \<exists>v.
             (case files ?w (cache_file (config_cache_dir example_algorithm) ''openai/clip'' t) of
                Some saved \<Rightarrow> v = saved
              | None \<Rightarrow> \<exists>ct. get_classnames_and_templates example_env t = Inr ct
                             \<and> v = clip_encode_text example_clip ct)
           \<and> files w' (cache_file (config_cache_dir example_algorithm) ''openai/clip'' t) = Some v"
    by blast
  have tr: "trace w' =
       [PathExists ''cache/clip_dtd_zeroshot_weights.pt'',
        TorchLoad ''cache/clip_dtd_zeroshot_weights.pt'',
        PathExists ''cache/clip_svhn_zeroshot_weights.pt'',
        EncodeText ''svhn'',
        TorchSave ''cache/clip_svhn_zeroshot_weights.pt'']"
    using r(2) by (simp add: names cd cache_file_example example_process_def)
  have f: "files w' ''cache/clip_dtd_zeroshot_weights.pt'' = Some 42"
      "files w' ''cache/clip_svhn_zeroshot_weights.pt'' = Some 15"
    using r(3)
    by (auto simp: names cd cache_file_example example_process_def example_env_def
        example_clip_def)
  from r(1) tr f show ?thesis by blast
qed

text \<open>
  Claim C4 as stated has the weights of every task without a cache file computed and
  persisted.  Nothing in the class creates the cache directory: in a process where the
  directory \<^verbatim>\<open>cache\<close> does not exist, the first task's weights are computed, the save
  raises, and the start ends in that error with nothing persisted.
\<close>

theorem zero_shot_head_no_cache_directory:
  "on_test_time_adaptation_start example_env example_class example_algorithm (example_process {})
     = Inl RuntimeError"
  by (simp add: on_test_time_adaptation_start_def pretrained_path_of_def example_algorithm_def
      algorithm_init_def example_env_def example_process_def build_head_def load_or_compute_def
      alloc_tensor_def torch_save_def parent_exists_def cache_file_example dirname_example
      Let_def)




text \<open>
  Claim C10.  For any two instances made by \<^verbatim>\<open>__init__\<close>, \<^verbatim>\<open>self.zeroshot_weights\<close> is
  the one dictionary of the class.  After the first instance's start, the head it stored
  for a task is what the second instance reads for that task, before having built
  anything; after the second instance's start, both instances read the object the second
  one stored, which is not the object the first one had stored.
\<close>

theorem zeroshot_weights_shared_by_instances:
  assumes a_start: "on_test_time_adaptation_start env cls
                      (algorithm_init cache_dir_a names_a cfg_a fabric_a) w = Inr (self_a, w1)"
    and b_start: "on_test_time_adaptation_start env cls
                      (algorithm_init cache_dir_b names_b cfg_b fabric_b) w1 = Inr (self_b, w2)"
    and d: "cls_zeroshot_weights cls < length (dicts w)"
    and dist: "distinct names_a" "distinct names_b"
    and t: "t \<in> set names_a" "t \<in> set names_b"
  shows "zeroshot_weights_of cls self_a = cls_zeroshot_weights cls
       \<and> zeroshot_weights_of cls self_b = cls_zeroshot_weights cls
       \<and> (\<exists>a b. head_lookup cls self_a w1 t = Inr a
              \<and> head_lookup cls (algorithm_init cache_dir_b names_b cfg_b fabric_b) w1 t = Inr a
              \<and> head_lookup cls self_a w2 t = Inr b
              \<and> head_lookup cls self_b w2 t = Inr b
              \<and> a \<noteq> b)"
proof -
  let ?ia = "algorithm_init cache_dir_a names_a cfg_a fabric_a :: 'a algorithm"
  let ?ib = "algorithm_init cache_dir_b names_b cfg_b fabric_b :: 'a algorithm"
  let ?d = "cls_zeroshot_weights cls"
  have za: "zeroshot_weights_of cls ?ia = ?d" and zb: "zeroshot_weights_of cls ?ib = ?d"
    by (simp_all add: zeroshot_weights_of_def algorithm_init_def)
  from on_start_unfold[OF a_start] obtain ppa clipa where
    sa: "self_a = ?ia\<lparr>self_visual_projection :=
                             Some (set_requires_grad False (clip_visual_projection clipa)),
                           self_logit_scale_exp := Some (exp (clip_logit_scale clipa))\<rparr>"
    and ba: "build_heads env clipa cls self_a ppa (modelpool_model_names ?ia) w = Inr w1"
    by blast
  from on_start_unfold[OF b_start] obtain ppb clipb where
    sb: "self_b = ?ib\<lparr>self_visual_projection :=
                             Some (set_requires_grad False (clip_visual_projection clipb)),
                           self_logit_scale_exp := Some (exp (clip_logit_scale clipb))\<rparr>"
    and bb: "build_heads env clipb cls self_b ppb (modelpool_model_names ?ib) w1 = Inr w2"
    by blast
  have zsa: "zeroshot_weights_of cls self_a = ?d" using sa za by simp
  have zsb: "zeroshot_weights_of cls self_b = ?d" using sb zb by simp
  have na: "modelpool_model_names ?ia = names_a" and nb: "modelpool_model_names ?ib = names_b"
    by (simp_all add: algorithm_init_def)
  have da: "zeroshot_weights_of cls self_a < length (dicts w)" using zsa d by simp
  note ra = build_heads_result[OF ba[unfolded na] dist(1) da, unfolded zsa]
  then have dl: "length (dicts w1) = length (dicts w)" by simp
  from ra t(1) obtain a where a: "dict_get ?d t w1 = Inr a" "a < length (tensors w1)"
    by blast
  have db: "zeroshot_weights_of cls self_b < length (dicts w1)" using zsb d dl by simp
  note rb = build_heads_result[OF bb[unfolded nb] dist(2) db, unfolded zsb]
  from rb t(2) obtain b where b: "dict_get ?d t w2 = Inr b" "length (tensors w1) \<le> b"
    by blast
  have "a \<noteq> b" using a(2) b(2) by simp
  with a(1) b(1) zsa zsb zb show ?thesis
    by (simp add: head_lookup_def)
qed

text \<open>Two instances with different configurations in one process.\<close>

theorem zeroshot_weights_shared_by_instances_witness:
  "\<exists>self_a w1 self_b w2 a b.
     on_test_time_adaptation_start
       \<lparr>from_pretrained = (\<lambda>path. Inr \<lparr>clip_visual_projection =
                                           \<lparr>data = 1 :: int, requires_grad = True, grad = None\<rparr>,
                                         clip_logit_scale = 0,
                                         clip_encode_text = (\<lambda>ct. int (length ct))\<rparr>),
        get_classnames_and_templates = (\<lambda>task. Inr (''a photo of '' @ task)),
        to_device = (\<lambda>v. Some v)\<rparr>
       \<lparr>cls_zeroshot_weights = 0\<rparr>
       (algorithm_init ''cache'' [''dtd'', ''svhn'']
          \<lparr>config_pretrained_model_name_or_path = Some ''openai/clip'', config_path = None\<rparr> False)
       \<lparr>files = Map.empty, directories = {''cache'', ''other''}, tensors = [],
        dicts = [Map.empty], trace = []\<rparr> = Inr (self_a, w1)
   \<and> on_test_time_adaptation_start
       \<lparr>from_pretrained = (\<lambda>path. Inr \<lparr>clip_visual_projection =
                                           \<lparr>data = 1 :: int, requires_grad = True, grad = None\<rparr>,
                                         clip_logit_scale = 0,
                                         clip_encode_text = (\<lambda>ct. int (length ct))\<rparr>),
        get_classnames_and_templates = (\<lambda>task. Inr (''a photo of '' @ task)),
        to_device = (\<lambda>v. Some v)\<rparr>
       \<lparr>cls_zeroshot_weights = 0\<rparr>
       (algorithm_init ''other'' [''svhn'']
          \<lparr>config_pretrained_model_name_or_path = None, config_path = Some ''local/vit''\<rparr> True)
       w1 = Inr (self_b, w2)
   \<and> head_lookup \<lparr>cls_zeroshot_weights = 0\<rparr> self_a w1 ''svhn'' = Inr a
   \<and> head_lookup \<lparr>cls_zeroshot_weights = 0\<rparr> self_a w2 ''svhn'' = Inr b
   \<and> head_lookup \<lparr>cls_zeroshot_weights = 0\<rparr> self_b w2 ''svhn'' = Inr b
   \<and> a \<noteq> b"
proof -
  let ?clip = "\<lparr>clip_visual_projection = \<lparr>data = 1 :: int, requires_grad = True, grad = None\<rparr>,
                clip_logit_scale = 0,
                clip_encode_text = (\<lambda>ct :: string. int (length ct))\<rparr>"
  let ?env = "\<lparr>from_pretrained = (\<lambda>path :: string. Inr ?clip),
        get_classnames_and_templates = (\<lambda>task. Inr (''a photo of '' @ task)),
        to_device = (\<lambda>v :: int. Some v)\<rparr>"
  let ?cls = "\<lparr>cls_zeroshot_weights = 0\<rparr>"
  let ?ia = "algorithm_init ''cache'' [''dtd'', ''svhn'']
          \<lparr>config_pretrained_model_name_or_path = Some ''openai/clip'', config_path = None\<rparr> False
          :: int algorithm"
  let ?ib = "algorithm_init ''other'' [''svhn'']
          \<lparr>config_pretrained_model_name_or_path = None, config_path = Some ''local/vit''\<rparr> True
          :: int algorithm"
  let ?w = "\<lparr>files = Map.empty :: string \<rightharpoonup> int, directories = {''cache'', ''other''},
        tensors = [], dicts = [Map.empty], trace = []\<rparr>"
  have a1: "pretrained_path_of (modelpool_pretrained_config ?ia) = Inr ''openai/clip''"
    by (simp add: pretrained_path_of_def algorithm_init_def)
  have a2: "from_pretrained ?env ''openai/clip'' = Inr ?clip" by simp
  have a3: "distinct (modelpool_model_names ?ia)" by (simp add: algorithm_init_def)
  have a4: "\<forall>t\<in>set (modelpool_model_names ?ia).
             files ?w (cache_file (config_cache_dir ?ia) ''openai/clip'' t) = None \<longrightarrow>
             (\<exists>ct. get_classnames_and_templates ?env t = Inr ct)
           \<and> parent_exists (cache_file (config_cache_dir ?ia) ''openai/clip'' t) ?w"
    by (simp add: algorithm_init_def cache_file_example dirname_example parent_exists_def)
  have a5: "zeroshot_weights_of ?cls ?ia < length (dicts ?w)"
    by (simp add: zeroshot_weights_of_def algorithm_init_def)
  from on_start_summary[OF a1 a2 a3 a4 a5]
  obtain self_a w1 where sa: "on_test_time_adaptation_start ?env ?cls ?ia ?w = Inr (self_a, w1)"
    and dl: "length (dicts w1) = length (dicts ?w)"
    and dir: "directories w1 = directories ?w"
    by blast
  have b1: "pretrained_path_of (modelpool_pretrained_config ?ib) = Inr ''local/vit''"
    by (simp add: pretrained_path_of_def algorithm_init_def)
  have b2: "from_pretrained ?env ''local/vit'' = Inr ?clip" by simp
  have b3: "distinct (modelpool_model_names ?ib)" by (simp add: algorithm_init_def)
  have b4: "\<forall>t\<in>set (modelpool_model_names ?ib).
             files w1 (cache_file (config_cache_dir ?ib) ''local/vit'' t) = None \<longrightarrow>
             (\<exists>ct. get_classnames_and_templates ?env t = Inr ct)
           \<and> parent_exists (cache_file (config_cache_dir ?ib) ''local/vit'' t) w1"
    using dir
    by (simp add: algorithm_init_def cache_file_example dirname_example parent_exists_def)
  have b5: "zeroshot_weights_of ?cls ?ib < length (dicts w1)"
    using dl by (simp add: zeroshot_weights_of_def algorithm_init_def)
  from on_start_summary[OF b1 b2 b3 b4 b5]
  obtain self_b w2 where sb: "on_test_time_adaptation_start ?env ?cls ?ib w1 = Inr (self_b, w2)"
    by blast
  from zeroshot_weights_shared_by_instances[OF sa sb, of "''svhn''"]
  obtain a b where "head_lookup ?cls self_a w1 ''svhn'' = Inr a"
      "head_lookup ?cls self_a w2 ''svhn'' = Inr b"
      "head_lookup ?cls self_b w2 ''svhn'' = Inr b" "a \<noteq> b"
    by auto
  with sa sb show ?thesis by blast
qed

subsection \<open>The logits\<close>

lemma sum_squares_nonneg: "0 \<le> sum_list (map (\<lambda>x. x * x) (xs :: real list))"
  by (induction xs) auto

lemma l2_norm_nonneg: "0 \<le> l2_norm xs"
  by (simp add: l2_norm_def sum_squares_nonneg)

lemma sum_squares_zero_iff:
  "sum_list (map (\<lambda>x. x * x) (xs :: real list)) = 0 \<longleftrightarrow> (\<forall>x\<in>set xs. x = 0)"
proof (induction xs)
  case Nil
  then show ?case by simp
next
  case (Cons x xs)
  have "0 \<le> x * x" by simp
  with sum_squares_nonneg[of xs]
  have "x * x + sum_list (map (\<lambda>x. x * x) xs) = 0
          \<longleftrightarrow> x * x = 0 \<and> sum_list (map (\<lambda>x. x * x) xs) = 0"
    by linarith
  with Cons show ?case by simp
qed

lemma l2_norm_zero_iff: "l2_norm xs = 0 \<longleftrightarrow> (\<forall>x\<in>set xs. x = 0)"
  by (simp add: l2_norm_def sum_squares_zero_iff)

lemma four_times_product: "4 * (u * v) \<le> (u + v)\<^sup>2" for u v :: real
proof -
  have "0 \<le> (u - v)\<^sup>2" by simp
  also have "(u - v)\<^sup>2 = (u + v)\<^sup>2 - 4 * (u * v)"
    by (simp add: power2_sum power2_diff)
  finally show ?thesis by simp
qed

lemma cross_term_bound:
  fixes x y d A B :: real
  assumes "d * d \<le> A * B" and "0 \<le> A" and "0 \<le> B"
  shows "2 * (x * y * d) \<le> x * x * B + A * (y * y)"
proof -
  define u where "u = x * x * B"
  define v where "v = A * (y * y)"
  define k where "k = (x * x) * (y * y)"
  have u: "0 \<le> u" and v: "0 \<le> v" and k: "0 \<le> k"
    using assms by (simp_all add: u_def v_def k_def)
  have "(x * y * d)\<^sup>2 = k * (d * d)"
    by (simp add: k_def power2_eq_square)
  also have "\<dots> \<le> k * (A * B)"
    using assms(1) k by (rule mult_left_mono)
  also have "\<dots> = u * v" by (simp add: u_def v_def k_def)
  finally have sq: "(x * y * d)\<^sup>2 \<le> u * v" .
  have "(2 * (x * y * d))\<^sup>2 = 4 * (x * y * d)\<^sup>2" by (simp add: power_mult_distrib)
  also have "\<dots> \<le> 4 * (u * v)" using sq by simp
  also have "\<dots> \<le> (u + v)\<^sup>2" by (rule four_times_product)
  finally have "(2 * (x * y * d))\<^sup>2 \<le> (u + v)\<^sup>2" .
  moreover have "0 \<le> u + v" using u v by simp
  ultimately have "2 * (x * y * d) \<le> u + v" by (rule power2_le_imp_le)
  then show ?thesis by (simp add: u_def v_def)
qed

text \<open>The Cauchy-Schwarz inequality for \<open>dot\<close>, by induction on the lists.\<close>

lemma dot_squared_bound:
  "dot xs ys * dot xs ys \<le> sum_list (map (\<lambda>x. x * x) xs) * sum_list (map (\<lambda>x. x * x) ys)"
proof (induction xs arbitrary: ys)
  case Nil
  then show ?case by (simp add: dot_def)
next
  case (Cons x xs)
  show ?case
  proof (cases ys)
    case Nil
    then show ?thesis by (simp add: dot_def)
  next
    case (Cons y ys')
    let ?d = "dot xs ys'"
    let ?A = "sum_list (map (\<lambda>x. x * x) xs)" and ?B = "sum_list (map (\<lambda>x. x * x) ys')"
    have ih: "?d * ?d \<le> ?A * ?B" by (rule Cons.IH)
    have c: "2 * (x * y * ?d) \<le> x * x * ?B + ?A * (y * y)"
      by (rule cross_term_bound[OF ih sum_squares_nonneg sum_squares_nonneg])
    have "(x * y + ?d) * (x * y + ?d) = x * x * (y * y) + 2 * (x * y * ?d) + ?d * ?d"
      by (simp add: algebra_simps)
    also have "\<dots> \<le> x * x * (y * y) + (x * x * ?B + ?A * (y * y)) + ?A * ?B"
      using c ih by linarith
    also have "\<dots> = (x * x + ?A) * (y * y + ?B)" by (simp add: algebra_simps)
    finally show ?thesis using Cons by (simp add: dot_def)
  qed
qed

lemma dot_abs_bound: "\<bar>dot xs ys\<bar> \<le> l2_norm xs * l2_norm ys"
proof -
  let ?A = "sum_list (map (\<lambda>x. x * x) xs)" and ?B = "sum_list (map (\<lambda>x. x * x) ys)"
  have "\<bar>dot xs ys\<bar> = sqrt (dot xs ys * dot xs ys)" by simp
  also have "\<dots> \<le> sqrt (?A * ?B)"
    using dot_squared_bound[of xs ys] by (rule real_sqrt_le_mono)
  also have "\<dots> = l2_norm xs * l2_norm ys"
    by (simp add: l2_norm_def real_sqrt_mult)
  finally show ?thesis .
qed

lemma dot_divide: "dot xs (map (\<lambda>y. y / n) ys) = dot xs ys / n"
proof (induction xs arbitrary: ys)
  case Nil
  then show ?case by (simp add: dot_def)
next
  case (Cons x xs)
  then show ?case
    by (cases ys) (simp_all add: dot_def add_divide_distrib)
qed

lemma cosine_bound:
  assumes "l2_norm ys \<noteq> 0"
  shows "\<bar>dot xs (map (\<lambda>y. y / l2_norm ys) ys)\<bar> \<le> l2_norm xs"
proof -
  have pos: "0 < l2_norm ys" using assms l2_norm_nonneg[of ys] by simp
  have "\<bar>dot xs ys\<bar> / l2_norm ys \<le> l2_norm xs"
    using dot_abs_bound[of xs ys] pos by (simp add: pos_divide_le_eq)
  then show ?thesis using pos by (simp add: dot_divide)
qed

lemma foldl_sadd_Num:
  "foldl sadd (Num acc) (map2 (\<lambda>x y. smul (Num x) y) xs (map Num ys))
     = Num (acc + sum_list (map2 (*) xs ys))"
proof (induction xs arbitrary: ys acc)
  case Nil
  then show ?case by simp
next
  case (Cons x xs)
  then show ?case by (cases ys) (simp_all add: algebra_simps)
qed

lemma sdot_Num: "sdot xs (map Num ys) = Num (dot xs ys)"
  using foldl_sadd_Num[of 0 xs ys] by (simp add: sdot_def dot_def)

lemma map_nth_upt: "map (\<lambda>j. f (xs ! j)) [0..<length xs] = map f xs"
  by (rule nth_equalityI) simp_all

lemma tensor_t_outer:
  "tensor_t \<lparr>rows = map (\<lambda>a. map (g a) bs) as, ncols = length bs\<rparr>
     = \<lparr>rows = map (\<lambda>b. map (\<lambda>a. g a b) as) bs, ncols = length as\<rparr>"
proof -
  have "map (\<lambda>j. map (\<lambda>r. r ! j) (map (\<lambda>a. map (g a) bs) as)) [0..<length bs]
      = map (\<lambda>j. map (\<lambda>a. g a (bs ! j)) as) [0..<length bs]"
    by (rule map_cong) (simp_all add: comp_def)
  also have "\<dots> = map (\<lambda>b. map (\<lambda>a. g a b) as) bs"
    by (rule map_nth_upt)
  finally show ?thesis by (simp add: tensor_t_def)
qed

lemma tensor_t_column:
  assumes "\<forall>r\<in>set (rows m). length r = ncols m" and "j < length (rows m)"
  shows "map (\<lambda>br. br ! j) (rows (tensor_t m)) = rows m ! j"
proof -
  have len: "length (rows m ! j) = ncols m" using assms by simp
  have "map (\<lambda>br. br ! j) (rows (tensor_t m)) = map (\<lambda>k. rows m ! j ! k) [0..<ncols m]"
    using assms(2) by (simp add: tensor_t_def comp_def)
  also have "\<dots> = rows m ! j"
    using map_nth[of "rows m ! j"] len by simp
  finally show ?thesis .
qed

lemma matmul_transposed:
  assumes "\<forall>r\<in>set (rows b). length r = ncols b" and "ncols a = ncols b"
  shows "matmul a (tensor_t b) =
           Inr \<lparr>rows = map (\<lambda>r. map (sdot r) (rows b)) (rows a), ncols = length (rows b)\<rparr>"
proof -
  have inner: "map (\<lambda>j. sdot r (map (\<lambda>br. br ! j) (rows (tensor_t b)))) [0..<length (rows b)]
      = map (sdot r) (rows b)" for r
  proof -
    have "map (\<lambda>j. sdot r (map (\<lambda>br. br ! j) (rows (tensor_t b)))) [0..<length (rows b)]
        = map (\<lambda>j. sdot r (rows b ! j)) [0..<length (rows b)]"
      by (rule map_cong) (simp_all add: tensor_t_column[OF assms(1)])
    then show ?thesis by (simp add: map_nth_upt)
  qed
  have "length (rows (tensor_t b)) = ncols b" "ncols (tensor_t b) = length (rows b)"
    by (simp_all add: tensor_t_def)
  with assms(2) inner show ?thesis by (simp add: matmul_def)
qed

text \<open>What \<^verbatim>\<open>compute_logits\<close> returns once the shapes fit.\<close>

lemma compute_logits_formula:
  assumes look: "head_lookup cls self w task = Inr a"
    and proj: "self_visual_projection self = Some layer"
    and scale: "self_logit_scale_exp self = Some c"
    and feat: "ncols (module_fn images) = ncols (data layer)"
    and emb: "ncols (tensors w ! a) = length (rows (data layer))"
  shows "compute_logits cls self w module_fn (images, labels) task =
           Inr \<lparr>rows = map (\<lambda>e. map (\<lambda>tr. smul (Num c) (sdot tr (map (\<lambda>x. sdiv x (l2_norm e)) e)))
                                  (rows (tensors w ! a)))
                         (map (\<lambda>r. map (\<lambda>wr. dot r wr) (rows (data layer)))
                            (rows (module_fn images))),
                 ncols = length (rows (tensors w ! a))\<rparr>"
proof -
  let ?text = "tensors w ! a"
  let ?P = "\<lparr>rows = map (\<lambda>r. map (\<lambda>wr. dot r wr) (rows (data layer))) (rows (module_fn images)),
            ncols = length (rows (data layer))\<rparr>"
  let ?N = "normalize_rows ?P"
  have lin: "linear (data layer) (module_fn images) = Inr ?P"
    using feat by (simp add: linear_def)
  have rect: "\<forall>r\<in>set (rows ?N). length r = ncols ?N"
    by (auto simp: normalize_rows_def)
  have inner: "ncols ?text = ncols ?N" using emb by (simp add: normalize_rows_def)
  note mm = matmul_transposed[OF rect inner]
  let ?prod = "\<lparr>rows = map (\<lambda>r. map (sdot r) (rows ?N)) (rows ?text), ncols = length (rows ?N)\<rparr>"
  have sc: "scale_by c ?prod =
      \<lparr>rows = map (\<lambda>tr. map (\<lambda>nr. smul (Num c) (sdot tr nr)) (rows ?N)) (rows ?text),
       ncols = length (rows ?N)\<rparr>"
    by (simp add: scale_by_def comp_def)
  have tt: "tensor_t (scale_by c ?prod) =
      \<lparr>rows = map (\<lambda>nr. map (\<lambda>tr. smul (Num c) (sdot tr nr)) (rows ?text)) (rows ?N),
       ncols = length (rows ?text)\<rparr>"
    unfolding sc by (rule tensor_t_outer)
  have "compute_logits cls self w module_fn (images, labels) task = Inr (tensor_t (scale_by c ?prod))"
    using look proj scale lin mm by (simp add: compute_logits_def Let_def)
  then show ?thesis
    unfolding tt by (simp add: normalize_rows_def comp_def)
qed

lemma normalized_row_finite:
  assumes "l2_norm e \<noteq> 0"
  shows "map (\<lambda>x. sdiv x (l2_norm e)) e = map Num (map (\<lambda>x. x / l2_norm e) e)"
  using assms by (simp add: sdiv_def)

lemma logit_entry_bound:
  assumes "l2_norm e \<noteq> 0" and "0 \<le> c"
  shows "\<exists>v. smul (Num c) (sdot tr (map (\<lambda>x. sdiv x (l2_norm e)) e)) = Num v
           \<and> v = c * dot tr (map (\<lambda>x. x / l2_norm e) e)
           \<and> \<bar>v\<bar> \<le> c * l2_norm tr"
proof -
  let ?u = "map (\<lambda>x. x / l2_norm e) e"
  have "smul (Num c) (sdot tr (map (\<lambda>x. sdiv x (l2_norm e)) e)) = Num (c * dot tr ?u)"
    unfolding normalized_row_finite[OF assms(1)] sdot_Num by simp
  moreover have "\<bar>c * dot tr ?u\<bar> \<le> c * l2_norm tr"
    using cosine_bound[OF assms(1), of tr] assms(2)
    by (simp add: abs_mult mult_left_mono)
  ultimately show ?thesis by blast
qed

text \<open>
  Claim C5, as amended.  Let the head of the task be a \<open>C \<times> P\<close> tensor, the projection
  map feature rows to \<open>P\<close> entries, the model give \<open>B\<close> feature rows of the projection's
  input width, and let every projected image embedding have a non-zero norm.  Then
  \<^verbatim>\<open>compute_logits\<close> returns a tensor of \<open>B\<close> rows and \<open>C\<close> columns; its entry for image
  \<open>b\<close> and class \<open>k\<close> is \<open>exp logit_scale\<close> times the dot product of text embedding
  \<open>k\<close> with the projected embedding of image \<open>b\<close> divided by its norm (in real
  arithmetic); its absolute value is at most \<open>exp logit_scale\<close> times the norm of text
  embedding \<open>k\<close>, hence at most \<open>exp logit_scale\<close> when that norm is at most 1.
\<close>

theorem compute_logits_shape_and_range:
  assumes look: "head_lookup cls self w task = Inr a"
    and proj: "self_visual_projection self = Some layer"
    and scale: "self_logit_scale_exp self = Some (exp logit_scale)"
    and feat: "ncols (module_fn images) = ncols (data layer)"
    and emb: "ncols (tensors w ! a) = length (rows (data layer))"
    and nz: "\<forall>r\<in>set (rows (module_fn images)).
               l2_norm (map (\<lambda>wr. dot r wr) (rows (data layer))) \<noteq> 0"
  shows "\<exists>logits.
         compute_logits cls self w module_fn (images, labels) task = Inr logits
       \<and> length (rows logits) = length (rows (module_fn images))
       \<and> ncols logits = length (rows (tensors w ! a))
       \<and> (\<forall>r\<in>set (rows logits). length r = ncols logits)
       \<and> (\<forall>b<length (rows logits). \<forall>k<ncols logits. \<exists>v.
             rows logits ! b ! k = Num v
           \<and> v = exp logit_scale *
                 dot (rows (tensors w ! a) ! k)
                   (map (\<lambda>x. x / l2_norm (map (\<lambda>wr. dot (rows (module_fn images) ! b) wr)
                                              (rows (data layer))))
                      (map (\<lambda>wr. dot (rows (module_fn images) ! b) wr) (rows (data layer))))
           \<and> \<bar>v\<bar> \<le> exp logit_scale * l2_norm (rows (tensors w ! a) ! k)
           \<and> (l2_norm (rows (tensors w ! a) ! k) \<le> 1 \<longrightarrow> \<bar>v\<bar> \<le> exp logit_scale))"
proof -
  let ?text = "tensors w ! a"
  let ?c = "exp logit_scale"
  let ?e = "\<lambda>r. map (\<lambda>wr. dot r wr) (rows (data layer))"
  let ?L = "\<lparr>rows = map (\<lambda>e. map (\<lambda>tr. smul (Num ?c) (sdot tr (map (\<lambda>x. sdiv x (l2_norm e)) e)))
                                  (rows ?text))
                         (map ?e (rows (module_fn images))),
                 ncols = length (rows ?text)\<rparr>"
  have res: "compute_logits cls self w module_fn (images, labels) task = Inr ?L"
    by (rule compute_logits_formula[where module_fn = module_fn and images = images,
          OF look proj scale feat emb])
  have entries: "\<exists>v. rows ?L ! b ! k = Num v
           \<and> v = ?c * dot (rows ?text ! k)
                   (map (\<lambda>x. x / l2_norm (?e (rows (module_fn images) ! b)))
                      (?e (rows (module_fn images) ! b)))
           \<and> \<bar>v\<bar> \<le> ?c * l2_norm (rows ?text ! k)
           \<and> (l2_norm (rows ?text ! k) \<le> 1 \<longrightarrow> \<bar>v\<bar> \<le> ?c)"
    if b: "b < length (rows ?L)" and k: "k < ncols ?L" for b k
  proof -
    have b': "b < length (rows (module_fn images))" using b by simp
    have k': "k < length (rows ?text)" using k by simp
    have nzb: "l2_norm (?e (rows (module_fn images) ! b)) \<noteq> 0"
      using nz b' by simp
    have at: "rows ?L ! b ! k = smul (Num ?c) (sdot (rows ?text ! k)
                 (map (\<lambda>x. sdiv x (l2_norm (?e (rows (module_fn images) ! b))))
                    (?e (rows (module_fn images) ! b))))"
      using b' k' by simp
    from logit_entry_bound[OF nzb, of ?c "rows ?text ! k"] obtain v where
      v: "smul (Num ?c) (sdot (rows ?text ! k)
                 (map (\<lambda>x. sdiv x (l2_norm (?e (rows (module_fn images) ! b))))
                    (?e (rows (module_fn images) ! b)))) = Num v"
         "v = ?c * dot (rows ?text ! k)
                   (map (\<lambda>x. x / l2_norm (?e (rows (module_fn images) ! b)))
                      (?e (rows (module_fn images) ! b)))"
         "\<bar>v\<bar> \<le> ?c * l2_norm (rows ?text ! k)"
      by auto
    have "\<bar>v\<bar> \<le> ?c" if "l2_norm (rows ?text ! k) \<le> 1"
    proof -
      have "?c * l2_norm (rows ?text ! k) \<le> ?c * 1"
        using that by (intro mult_left_mono) simp_all
      with v(3) show ?thesis by linarith
    qed
    with at v show ?thesis by metis
  qed
  have shape: "\<forall>r\<in>set (rows ?L). length r = ncols ?L" by auto
  have "length (rows ?L) = length (rows (module_fn images))" "ncols ?L = length (rows ?text)"
    by simp_all
  with res shape entries show ?thesis by blast
qed

text \<open>One image, three classes, the identity as projection.\<close>

theorem compute_logits_shape_and_range_witness:
  "\<exists>logits.
     compute_logits \<lparr>cls_zeroshot_weights = 0\<rparr>
       ((algorithm_init ''cache'' [''dtd'']
           \<lparr>config_pretrained_model_name_or_path = Some ''openai/clip'', config_path = None\<rparr> False)
         \<lparr>self_visual_projection :=
             Some \<lparr>data = \<lparr>rows = [[1, 0], [0, 1]], ncols = 2\<rparr>, requires_grad = False, grad = None\<rparr>,
           self_logit_scale_exp := Some (exp 0)\<rparr>)
       \<lparr>files = Map.empty, directories = {}, tensors = [\<lparr>rows = [[1, 0], [0, 1], [1, 1]], ncols = 2\<rparr>],
        dicts = [[''dtd'' \<mapsto> 0]], trace = []\<rparr>
       id (\<lparr>rows = [[0, 2]], ncols = 2\<rparr>, ()) ''dtd'' = Inr logits
   \<and> length (rows logits) = 1 \<and> ncols logits = 3"
proof -
  let ?self = "(algorithm_init ''cache'' [''dtd'']
           \<lparr>config_pretrained_model_name_or_path = Some ''openai/clip'', config_path = None\<rparr> False)
         \<lparr>self_visual_projection :=
             Some \<lparr>data = \<lparr>rows = [[1, 0], [0, 1]], ncols = 2\<rparr>, requires_grad = False, grad = None\<rparr>,
           self_logit_scale_exp := Some (exp 0)\<rparr> :: real tensor2 algorithm"
  let ?w = "\<lparr>files = Map.empty, directories = {}, tensors = [\<lparr>rows = [[1, 0], [0, 1], [1, 1 :: real]], ncols = 2\<rparr>],
        dicts = [[''dtd'' \<mapsto> 0 :: nat]], trace = []\<rparr>"
  let ?layer = "\<lparr>data = \<lparr>rows = [[1, 0], [0, 1 :: real]], ncols = 2\<rparr>, requires_grad = False,
                 grad = None\<rparr>"
  have h1: "head_lookup \<lparr>cls_zeroshot_weights = 0\<rparr> ?self ?w ''dtd'' = Inr 0"
    by (simp add: head_lookup_def dict_get_def zeroshot_weights_of_def algorithm_init_def)
  have h2: "self_visual_projection ?self = Some ?layer" by simp
  have h3: "self_logit_scale_exp ?self = Some (exp 0)" by simp
  have h4: "ncols (id \<lparr>rows = [[0, 2 :: real]], ncols = 2\<rparr>) = ncols (data ?layer)" by simp
  have h5: "ncols (tensors ?w ! 0) = length (rows (data ?layer))" by simp
  have h6: "\<forall>r\<in>set (rows (id \<lparr>rows = [[0, 2 :: real]], ncols = 2\<rparr>)).
               l2_norm (map (\<lambda>wr. dot r wr) (rows (data ?layer))) \<noteq> 0"
    by (simp add: l2_norm_def dot_def)
  from compute_logits_shape_and_range[where module_fn = id
      and images = "\<lparr>rows = [[0, 2 :: real]], ncols = 2\<rparr>" and labels = "()",
      OF h1 h2 h3 h4 h5 h6]
  show ?thesis by auto
qed

text \<open>
  Claim C5 as stated bounds every entry for every batch.  For an image whose projected
  embedding is zero, every logit of that image is not a finite number, so it lies in no
  interval.
\<close>

theorem compute_logits_zero_embedding:
  "compute_logits \<lparr>cls_zeroshot_weights = 0\<rparr>
     ((algorithm_init ''cache'' [''dtd'']
         \<lparr>config_pretrained_model_name_or_path = Some ''openai/clip'', config_path = None\<rparr> False)
       \<lparr>self_visual_projection :=
           Some \<lparr>data = \<lparr>rows = [[1, 0], [0, 1]], ncols = 2\<rparr>, requires_grad = False, grad = None\<rparr>,
         self_logit_scale_exp := Some (exp 0)\<rparr>)
     \<lparr>files = Map.empty, directories = {}, tensors = [\<lparr>rows = [[1, 0], [0, 1], [1, 1]], ncols = 2\<rparr>],
      dicts = [[''dtd'' \<mapsto> 0]], trace = []\<rparr>
     id (\<lparr>rows = [[0, 0]], ncols = 2\<rparr>, ()) ''dtd''
   = Inr \<lparr>rows = [[NonFinite, NonFinite, NonFinite]], ncols = 3\<rparr>"
  by (simp add: compute_logits_def head_lookup_def dict_get_def zeroshot_weights_of_def
      algorithm_init_def linear_def dot_def normalize_rows_def sdiv_def l2_norm_def
      matmul_def tensor_t_def sdot_def scale_by_def upt_conv_Cons)

text \<open>
  Claim C6, as amended.  The normalization has no guard: every entry of a row is divided
  by the row's norm, whatever the norm is.  When the norm is zero the entry is divided by
  zero and becomes a value that is not a finite number (no exception is raised);
  otherwise it is the quotient.  The norm is the one of the reals; which rows have norm
  zero in floating point is not stated.
\<close>

theorem normalize_rows_unguarded:
  assumes "i < length (rows m)" and "j < length (rows m ! i)"
  shows "rows (normalize_rows m) ! i ! j =
           (if l2_norm (rows m ! i) = 0 then NonFinite
            else Num (rows m ! i ! j / l2_norm (rows m ! i)))"
  using assms by (simp add: normalize_rows_def sdiv_def)

text \<open>The row \<open>(0, 2)\<close> has norm 2 and the row \<open>(0, 0)\<close> has norm 0.\<close>

theorem normalize_rows_unguarded_witness:
  "rows (normalize_rows \<lparr>rows = [[0, 2], [0, 0]], ncols = 2\<rparr>) ! 0 ! 1 = Num 1
   \<and> rows (normalize_rows \<lparr>rows = [[0, 2], [0, 0]], ncols = 2\<rparr>) ! 1 ! 0 = NonFinite"
  using normalize_rows_unguarded[of 0 "\<lparr>rows = [[0, 2], [0, 0]], ncols = 2\<rparr>" 1]
    normalize_rows_unguarded[of 1 "\<lparr>rows = [[0, 2], [0, 0]], ncols = 2\<rparr>" 0]
  by (simp add: l2_norm_def)

text \<open>
  Claim C6 as stated says that no division by zero happens for a zero-norm embedding.
  The row \<open>(0, 0)\<close> is divided by its norm 0.
\<close>

theorem normalize_rows_zero_row:
  "normalize_rows \<lparr>rows = [[0, 0]], ncols = 2\<rparr> = \<lparr>rows = [[NonFinite, NonFinite]], ncols = 2\<rparr>"
  by (simp add: normalize_rows_def sdiv_def l2_norm_def)

end
